theory Spec2Isabelle
  imports Complex_Main "HOL-Library.Multiset"
begin

section \<open>JavaScript values read by the dashboard\<close>

text \<open>
  The component \<^verbatim>\<open>Dashboard.tsx\<close> receives \<^verbatim>\<open>response.data\<close> of type \<^verbatim>\<open>any\<close>: a parsed
  JSON document. TypeScript's interface \<^verbatim>\<open>Listing\<close> is erased at run time, so a listing is
  modelled as the value the code really inspects. An object is its property list
  (\<open>map_of\<close>: the first binding of a key is the one read). Numbers are kept exact;
  the dashboard only tests them for zero and displays them.
\<close>

datatype js =
    JUndefined
  | JNull
  | JBool bool
  | JNum real
  | JStr string
  | JArr "js list"
  | JObj "(string \<times> js) list"

fun typeof :: "js \<Rightarrow> string" where
  "typeof JUndefined = ''undefined''"
| "typeof JNull = ''object''"
| "typeof (JBool b) = ''boolean''"
| "typeof (JNum n) = ''number''"
| "typeof (JStr s) = ''string''"
| "typeof (JArr xs) = ''object''"
| "typeof (JObj kvs) = ''object''"

text \<open>Truthiness, as used by \<^verbatim>\<open>!x\<close>, \<^verbatim>\<open>x || y\<close>, \<^verbatim>\<open>x ? a : b\<close> and \<^verbatim>\<open>x && y\<close>.\<close>

fun ToBoolean :: "js \<Rightarrow> bool" where
  "ToBoolean JUndefined = False"
| "ToBoolean JNull = False"
| "ToBoolean (JBool b) = b"
| "ToBoolean (JNum n) = (n \<noteq> 0)"
| "ToBoolean (JStr s) = (s \<noteq> [])"
| "ToBoolean (JArr xs) = True"
| "ToBoolean (JObj kvs) = True"

definition js_or :: "js \<Rightarrow> js \<Rightarrow> js" where
  "js_or a b = (if ToBoolean a then a else b)"

text \<open>
  Property reads. The keys the dashboard reads (\<^verbatim>\<open>id\<close>, \<^verbatim>\<open>title\<close>, \<^verbatim>\<open>price\<close>,
  \<^verbatim>\<open>location\<close>, \<^verbatim>\<open>link\<close>, \<^verbatim>\<open>seen\<close>, \<^verbatim>\<open>image_url\<close>, \<^verbatim>\<open>scraped_at\<close>, \<^verbatim>\<open>detail\<close>,
  \<^verbatim>\<open>total_listings\<close>, \<^verbatim>\<open>unseen_listings\<close>) are own properties of objects only; on an
  array, a number or a boolean they read \<^verbatim>\<open>undefined\<close>. (On a string \<^verbatim>\<open>link\<close> is a
  prototype method; the validation never reads a property of a string, and the theorems
  about rendering assume validated listings.) A read on \<^verbatim>\<open>null\<close> or \<^verbatim>\<open>undefined\<close>
  throws a TypeError; the optional chain \<^verbatim>\<open>?.\<close> yields \<^verbatim>\<open>undefined\<close> instead.
\<close>

fun js_prop :: "js \<Rightarrow> string \<Rightarrow> js" where
  "js_prop (JObj kvs) k = (case map_of kvs k of None \<Rightarrow> JUndefined | Some v \<Rightarrow> v)"
| "js_prop v k = JUndefined"

record axios_response =
  status :: nat
  data :: js

record axios_error =
  response :: "axios_response option"
  code :: "string option"
  message :: string

datatype thrown = AxiosError axios_error | TypeError

datatype 'a outcome = Resolved 'a | Rejected thrown

definition member :: "js \<Rightarrow> string \<Rightarrow> thrown + js" where
  "member v k = (if v = JUndefined \<or> v = JNull then Inl TypeError else Inr (js_prop v k))"

fun join_comma :: "string list \<Rightarrow> string" where
  "join_comma [] = []"
| "join_comma [s] = s"
| "join_comma (s # t # ss) = s @ '','' @ join_comma (t # ss)"

text \<open>
  String conversion inside template literals; the formatting of a number is the
  platform's (\<open>ns\<close>).
\<close>

fun ToString :: "(real \<Rightarrow> string) \<Rightarrow> js \<Rightarrow> string" where
  "ToString ns JUndefined = ''undefined''"
| "ToString ns JNull = ''null''"
| "ToString ns (JBool b) = (if b then ''true'' else ''false'')"
| "ToString ns (JNum n) = ns n"
| "ToString ns (JStr s) = s"
| "ToString ns (JArr xs) =
     join_comma (map (\<lambda>x. if x = JUndefined \<or> x = JNull then [] else ToString ns x) xs)"
| "ToString ns (JObj kvs) = ''[object Object]''"

section \<open>Requests, environment and component state\<close>

datatype http_method = GET | POST

record request =
  verb :: http_method
  url :: string
  body :: js
  headers :: "(string \<times> string) list"
  withCredentials :: bool
  timeout_ms :: "nat option"

text \<open>
  The environment of the component: the network behind axios, threaded through a world
  \<open>'w\<close> (a request may change the server); \<^verbatim>\<open>alert\<close>; the auth context's \<^verbatim>\<open>logout\<close> and the
  router's \<^verbatim>\<open>navigate\<close>; and the platform functions number-to-string,
  \<^verbatim>\<open>new Date(x).getTime()\<close> (\<open>None\<close> is NaN, the time of an invalid date) and
  \<^verbatim>\<open>new Date(x).toLocaleDateString(...)\<close>. axios resolves on a 2xx answer and rejects
  otherwise.
\<close>

record 'w env =
  http :: "request \<Rightarrow> 'w \<Rightarrow> js outcome \<times> 'w"
  alert :: "string \<Rightarrow> 'w \<Rightarrow> 'w"
  logout :: "'w \<Rightarrow> 'w"
  navigate :: "string \<Rightarrow> 'w \<Rightarrow> 'w"
  REACT_APP_API_URL :: "string option"
  numToString :: "real \<Rightarrow> string"
  getTime :: "js \<Rightarrow> int option"
  toLocaleDateString :: "js \<Rightarrow> string"

definition API_URL :: "'w env \<Rightarrow> string" where
  "API_URL e = (case REACT_APP_API_URL e of
                  None \<Rightarrow> ''http://localhost:8000''
                | Some u \<Rightarrow> if u = [] then ''http://localhost:8000'' else u)"

record stats_rec =
  total_count :: js
  unseen_count :: js

record dashboard =
  listings :: "js list"
  loading :: bool
  error :: "string option"
  showOnlyUnseen :: bool
  scraping :: bool
  searchQuery :: string
  retryCount :: nat
  stats :: stats_rec

definition initial :: dashboard where
  "initial = \<lparr> listings = [], loading = True, error = None, showOnlyUnseen = False,
               scraping = False, searchQuery = [], retryCount = 0,
               stats = \<lparr> total_count = JNum 0, unseen_count = JNum 0 \<rparr> \<rparr>"

text \<open>\<^verbatim>\<open>!token\<close>: the token is null or the empty string.\<close>

definition token_missing :: "string option \<Rightarrow> bool" where
  "token_missing t = (case t of None \<Rightarrow> True | Some s \<Rightarrow> s = [])"

definition bearer :: "string option \<Rightarrow> string" where
  "bearer t = ''Bearer '' @ (case t of None \<Rightarrow> ''null'' | Some s \<Rightarrow> s)"

definition bool_string :: "bool \<Rightarrow> string" where
  "bool_string b = (if b then ''true'' else ''false'')"

section \<open>fetchListings\<close>

definition listings_request :: "'w env \<Rightarrow> string option \<Rightarrow> bool \<Rightarrow> request" where
  "listings_request e token showUnseen =
     \<lparr> verb = GET,
       url = API_URL e @ ''/listings?include_seen='' @ bool_string (\<not> showUnseen),
       body = JUndefined,
       headers = [(''Authorization'', bearer token),
                  (''Content-Type'', ''application/json''),
                  (''Accept'', ''application/json'')],
       withCredentials = True,
       timeout_ms = Some 10000 \<rparr>"

text \<open>The conjunction \<^verbatim>\<open>a && b\<close> of two tests, the first of which may throw.\<close>

definition and_then :: "thrown + bool \<Rightarrow> thrown + bool \<Rightarrow> thrown + bool" where
  "and_then a b = (case a of Inl x \<Rightarrow> Inl x | Inr t \<Rightarrow> if t then b else Inr False)"

definition typeof_member :: "js \<Rightarrow> string \<Rightarrow> string \<Rightarrow> thrown + bool" where
  "typeof_member v k t = (case member v k of Inl x \<Rightarrow> Inl x | Inr p \<Rightarrow> Inr (typeof p = t))"

text \<open>The callback of \<^verbatim>\<open>response.data.filter\<close> (lines 67 to 76).\<close>

definition validListing :: "js \<Rightarrow> thrown + bool" where
  "validListing listing =
     and_then (Inr (typeof listing = ''object''))
    (and_then (typeof_member listing ''id'' ''string'')
    (and_then (typeof_member listing ''title'' ''string'')
    (and_then (typeof_member listing ''price'' ''string'')
    (and_then (typeof_member listing ''location'' ''string'')
              (typeof_member listing ''link'' ''string'')))))"

text \<open>\<^verbatim>\<open>Array.prototype.filter\<close> with a callback that may throw: the first throw ends it.\<close>

fun filter_res :: "('a \<Rightarrow> thrown + bool) \<Rightarrow> 'a list \<Rightarrow> thrown + 'a list" where
  "filter_res p [] = Inr []"
| "filter_res p (x # xs) =
     (case p x of
        Inl t \<Rightarrow> Inl t
      | Inr b \<Rightarrow> (case filter_res p xs of
                   Inl t \<Rightarrow> Inl t
                 | Inr ys \<Rightarrow> Inr (if b then x # ys else ys)))"

text \<open>\<^verbatim>\<open>err.response?.status\<close> and \<^verbatim>\<open>err.response?.data?.detail\<close>.\<close>

definition err_status :: "axios_error \<Rightarrow> nat option" where
  "err_status err = map_option status (response err)"

definition err_detail :: "axios_error \<Rightarrow> js" where
  "err_detail err = (case response err of
                       None \<Rightarrow> JUndefined
                     | Some r \<Rightarrow> js_prop (data r) ''detail'')"

text \<open>The \<^verbatim>\<open>catch\<close> block of fetchListings (lines 89 to 109): the message it sets.\<close>

definition fetch_error_message :: "'w env \<Rightarrow> thrown \<Rightarrow> string" where
  "fetch_error_message e t =
     (case t of
        AxiosError err \<Rightarrow>
          if err_status err = Some 401 then ''Session expired. Please login again.''
          else if code err = Some ''ERR_NETWORK''
            then ''Network error. Please check if the server is running.''
          else if err_status err = Some 500
            then ''Server error: '' @
                 ToString (numToString e) (js_or (err_detail err) (JStr ''Unknown error''))
          else ''Failed to fetch listings: '' @
                 ToString (numToString e) (js_or (err_detail err) (JStr (message err)))
      | TypeError \<Rightarrow> ''Failed to fetch listings. Please try again.'')"

text \<open>The \<^verbatim>\<open>try\<close> block after the response has arrived (lines 66 to 88).\<close>

definition fetch_try :: "'w env \<Rightarrow> js outcome \<Rightarrow> dashboard \<Rightarrow> dashboard" where
  "fetch_try e res st =
     (case res of
        Rejected t \<Rightarrow> st\<lparr>error := Some (fetch_error_message e t)\<rparr>
      | Resolved d \<Rightarrow>
          (case d of
             JArr xs \<Rightarrow>
               (case filter_res validListing xs of
                  Inl t \<Rightarrow> st\<lparr>error := Some (fetch_error_message e t)\<rparr>
                | Inr validListings \<Rightarrow>
                    st\<lparr>listings := validListings,
                       stats := \<lparr> total_count = JNum (real (length validListings)),
                                  unseen_count = JNum (real (length
                                    (filter (\<lambda>l. \<not> ToBoolean (js_prop l ''seen'')) validListings))) \<rparr>,
                       retryCount := 0\<rparr>)
           | _ \<Rightarrow> st\<lparr>error := Some ''Invalid response format from server''\<rparr>))"

definition fetchListings ::
  "'w env \<Rightarrow> string option \<Rightarrow> dashboard \<times> 'w \<Rightarrow> dashboard \<times> 'w" where
  "fetchListings e token sw =
     (case sw of (st, w) \<Rightarrow>
        if token_missing token
        then (st\<lparr>error := Some ''Authentication token is missing'', loading := False\<rparr>, w)
        else
          (case http e (listings_request e token (showOnlyUnseen st)) w of (res, w') \<Rightarrow>
             ((fetch_try e res (st\<lparr>loading := True, error := None\<rparr>))\<lparr>loading := False\<rparr>, w')))"

section \<open>scrapeListings, markAsSeen, exportListings, handleRetry, handleLogout\<close>

definition scrape_request :: "'w env \<Rightarrow> string option \<Rightarrow> request" where
  "scrape_request e token =
     \<lparr> verb = POST, url = API_URL e @ ''/scrape'', body = JObj [],
       headers = [(''Authorization'', bearer token)],
       withCredentials = False, timeout_ms = None \<rparr>"

text \<open>
  The three later \<^verbatim>\<open>catch\<close> blocks differ only in the words of the message
  (\<open>what\<close> is \<^verbatim>\<open>scrape listings\<close>, \<^verbatim>\<open>mark listings as seen\<close> or \<^verbatim>\<open>export listings\<close>).
\<close>

definition action_error_message :: "'w env \<Rightarrow> string \<Rightarrow> thrown \<Rightarrow> string" where
  "action_error_message e what t =
     (case t of
        AxiosError err \<Rightarrow>
          if err_status err = Some 401 then ''Session expired. Please login again.''
          else ''Failed to '' @ what @ '': '' @
                 ToString (numToString e) (js_or (err_detail err) (JStr (message err)))
      | TypeError \<Rightarrow> ''Failed to '' @ what @ ''. Please try again.'')"

definition scrapeListings ::
  "'w env \<Rightarrow> string option \<Rightarrow> dashboard \<times> 'w \<Rightarrow> dashboard \<times> 'w" where
  "scrapeListings e token sw =
     (case sw of (st, w) \<Rightarrow>
        (let st1 = st\<lparr>scraping := True\<rparr> in
         case http e (scrape_request e token) w of (res, w1) \<Rightarrow>
           (let failed = (\<lambda>t. (st1\<lparr>error := Some (action_error_message e ''scrape listings'' t),
                                    scraping := False\<rparr>, w1))
            in case res of
                 Rejected t \<Rightarrow> failed t
               | Resolved d \<Rightarrow>
                   (case member d ''total_listings'' of
                      Inl t \<Rightarrow> failed t
                    | Inr tot \<Rightarrow>
                        (case member d ''unseen_listings'' of
                           Inl t \<Rightarrow> failed t
                         | Inr uns \<Rightarrow>
                             (case fetchListings e token
                                     (st1\<lparr>stats := \<lparr> total_count = tot, unseen_count = uns \<rparr>\<rparr>, w1)
                              of (st2, w2) \<Rightarrow> (st2\<lparr>scraping := False\<rparr>, w2)))))))"

definition mark_seen_request :: "'w env \<Rightarrow> string option \<Rightarrow> js list \<Rightarrow> request" where
  "mark_seen_request e token listingIds =
     \<lparr> verb = POST, url = API_URL e @ ''/listings/mark-seen'', body = JArr listingIds,
       headers = [(''Authorization'', bearer token)],
       withCredentials = False, timeout_ms = None \<rparr>"

definition markAsSeen ::
  "'w env \<Rightarrow> string option \<Rightarrow> js list \<Rightarrow> dashboard \<times> 'w \<Rightarrow> dashboard \<times> 'w" where
  "markAsSeen e token listingIds sw =
     (case sw of (st, w) \<Rightarrow>
        (case http e (mark_seen_request e token listingIds) w of (res, w1) \<Rightarrow>
           (case res of
              Rejected t \<Rightarrow>
                (st\<lparr>error := Some (action_error_message e ''mark listings as seen'' t)\<rparr>, w1)
            | Resolved d \<Rightarrow> fetchListings e token (st, w1))))"

datatype export_format = Csv | Excel

fun format_string :: "export_format \<Rightarrow> string" where
  "format_string Csv = ''csv''"
| "format_string Excel = ''excel''"

fun format_upper :: "export_format \<Rightarrow> string" where
  "format_upper Csv = ''CSV''"
| "format_upper Excel = ''EXCEL''"

definition export_request ::
  "'w env \<Rightarrow> string option \<Rightarrow> export_format \<Rightarrow> bool \<Rightarrow> request" where
  "export_request e token fmt showUnseen =
     \<lparr> verb = POST,
       url = API_URL e @ ''/listings/export?format='' @ format_string fmt @
             ''&include_seen='' @ bool_string (\<not> showUnseen),
       body = JObj [],
       headers = [(''Authorization'', bearer token)],
       withCredentials = False, timeout_ms = None \<rparr>"

definition exportListings ::
  "'w env \<Rightarrow> string option \<Rightarrow> export_format \<Rightarrow> dashboard \<times> 'w \<Rightarrow> dashboard \<times> 'w" where
  "exportListings e token fmt sw =
     (case sw of (st, w) \<Rightarrow>
        (case http e (export_request e token fmt (showOnlyUnseen st)) w of (res, w1) \<Rightarrow>
           (case res of
              Rejected t \<Rightarrow>
                (st\<lparr>error := Some (action_error_message e ''export listings'' t)\<rparr>, w1)
            | Resolved d \<Rightarrow> (st, alert e (''Listings exported to '' @ format_upper fmt) w1))))"

definition handleRetry ::
  "'w env \<Rightarrow> string option \<Rightarrow> dashboard \<times> 'w \<Rightarrow> dashboard \<times> 'w" where
  "handleRetry e token sw =
     (case sw of (st, w) \<Rightarrow> fetchListings e token (st\<lparr>retryCount := retryCount st + 1\<rparr>, w))"

definition handleLogout :: "'w env \<Rightarrow> dashboard \<times> 'w \<Rightarrow> dashboard \<times> 'w" where
  "handleLogout e sw = (case sw of (st, w) \<Rightarrow> (st, navigate e ''/login'' (logout e w)))"

section \<open>filteredAndSortedListings\<close>

text \<open>
  \<^verbatim>\<open>toLowerCase\<close> on the ASCII letters; other characters are left as they are
  (strings are byte lists here, the Unicode case tables are not modelled).
\<close>

definition lower_char :: "char \<Rightarrow> char" where
  "lower_char c = (let n = (of_char c :: nat)
                   in if 65 \<le> n \<and> n \<le> 90 then char_of (n + 32) else c)"

definition toLowerCase :: "string \<Rightarrow> string" where
  "toLowerCase s = map lower_char s"

fun str_includes :: "string \<Rightarrow> string \<Rightarrow> bool" where
  "str_includes [] sub = (sub = [])"
| "str_includes (c # cs) sub = (take (length sub) (c # cs) = sub \<or> str_includes cs sub)"

text \<open>
  \<^verbatim>\<open>listing.k.toLowerCase().includes(searchLower)\<close>: the read throws on null and
  undefined, the method call on anything that is not a string.
\<close>

definition field_includes :: "js \<Rightarrow> string \<Rightarrow> string \<Rightarrow> thrown + bool" where
  "field_includes listing k searchLower =
     (case member listing k of
        Inl t \<Rightarrow> Inl t
      | Inr v \<Rightarrow> (case v of
                   JStr s \<Rightarrow> Inr (str_includes (toLowerCase s) searchLower)
                 | _ \<Rightarrow> Inl TypeError))"

text \<open>The disjunction \<^verbatim>\<open>a || b\<close> of two tests that may throw; \<open>b\<close> runs only if \<open>a\<close> is false.\<close>

definition or_else :: "thrown + bool \<Rightarrow> thrown + bool \<Rightarrow> thrown + bool" where
  "or_else a b = (case a of Inl x \<Rightarrow> Inl x | Inr t \<Rightarrow> if t then Inr True else b)"

definition matchesSearch :: "string \<Rightarrow> js \<Rightarrow> thrown + bool" where
  "matchesSearch query listing =
     (let searchLower = toLowerCase query
      in or_else (field_includes listing ''title'' searchLower)
        (or_else (field_includes listing ''location'' searchLower)
                 (field_includes listing ''price'' searchLower)))"

text \<open>
  The comparator \<^verbatim>\<open>(a, b) => new Date(b.scraped_at).getTime() - new Date(a.scraped_at).getTime()\<close>.
  Every element compared has passed the search filter, so it is neither null nor
  undefined and the reads cannot throw. A difference with NaN is NaN, which
  \<^verbatim>\<open>Array.prototype.sort\<close> takes as 0. Times are whole milliseconds; their difference as a
  double has the sign of the exact difference.
\<close>

definition compare_scraped :: "'w env \<Rightarrow> js \<Rightarrow> js \<Rightarrow> int" where
  "compare_scraped e a b =
     (case (getTime e (js_prop b ''scraped_at''), getTime e (js_prop a ''scraped_at'')) of
        (Some tb, Some ta) \<Rightarrow> tb - ta
      | _ \<Rightarrow> 0)"

text \<open>
  \<^verbatim>\<open>Array.prototype.sort\<close> is stable. For a consistent comparator its result is the
  stable sorted arrangement, which stable insertion computes; for an inconsistent one
  (NaN among valid times) the language leaves the order to the implementation, and the
  model then fixes insertion order.
\<close>

fun insert_by :: "('a \<Rightarrow> 'a \<Rightarrow> int) \<Rightarrow> 'a \<Rightarrow> 'a list \<Rightarrow> 'a list" where
  "insert_by cmp x [] = [x]"
| "insert_by cmp x (y # ys) = (if cmp x y \<le> 0 then x # y # ys else y # insert_by cmp x ys)"

definition sort_by :: "('a \<Rightarrow> 'a \<Rightarrow> int) \<Rightarrow> 'a list \<Rightarrow> 'a list" where
  "sort_by cmp xs = foldr (insert_by cmp) xs []"

definition filteredAndSortedListings ::
  "'w env \<Rightarrow> js list \<Rightarrow> string \<Rightarrow> thrown + js list" where
  "filteredAndSortedListings e ls query =
     (case filter_res (matchesSearch query) ls of
        Inl t \<Rightarrow> Inl t
      | Inr filtered \<Rightarrow> Inr (sort_by (compare_scraped e) filtered))"

section \<open>The rendered view\<close>

datatype image = Img js js | NoImage

record card =
  unseenClass :: bool
  image :: image
  href :: js
  titleText :: js
  priceText :: js
  locationText :: js
  dateText :: string
  markSeenButton :: "js list option"

text \<open>
  The view keeps what the user sees and can click. Left out: the \<^verbatim>\<open>console.log\<close> calls,
  React's \<^verbatim>\<open>key\<close> of a card, and the \<^verbatim>\<open>onError\<close> handler of the image element, which
  swaps in a placeholder picture when the browser fails to load the source.

  One card of the grid (lines 290 to 333). \<open>Img src alt\<close> is the image element,
  \<open>NoImage\<close> the placeholder \<^verbatim>\<open>No Image\<close>. \<open>markSeenButton\<close> holds the argument that a
  click on \<^verbatim>\<open>Mark as Seen\<close> passes to markAsSeen, and is \<open>None\<close> when the button is not
  rendered.
\<close>

definition listing_card :: "'w env \<Rightarrow> js \<Rightarrow> card" where
  "listing_card e listing =
     \<lparr> unseenClass = (\<not> ToBoolean (js_prop listing ''seen'')),
       image = (if ToBoolean (js_prop listing ''image_url'')
                then Img (js_prop listing ''image_url'') (js_prop listing ''title'')
                else NoImage),
       href = js_prop listing ''link'',
       titleText = js_prop listing ''title'',
       priceText = js_prop listing ''price'',
       locationText = js_prop listing ''location'',
       dateText = toLocaleDateString e (js_prop listing ''scraped_at''),
       markSeenButton = (if \<not> ToBoolean (js_prop listing ''seen'')
                         then Some [js_prop listing ''id''] else None) \<rparr>"

datatype listing_area = NoListings string | Grid "card list"

record page =
  scrapeDisabled :: bool
  scrapeLabel :: string
  totalShown :: js
  unseenShown :: js
  searchValue :: string
  unseenChecked :: bool
  errorBanner :: "string option"
  area :: listing_area

datatype view = LoadingView | LoginView | Page page

text \<open>
  The component's render (lines 188 to 338). The memo is computed before the early
  returns, so a throw inside it fails the render whatever \<^verbatim>\<open>loading\<close> is.
  \<^verbatim>\<open>{error && ...}\<close> shows the banner for a non-empty message.
\<close>

definition render :: "'w env \<Rightarrow> string option \<Rightarrow> dashboard \<Rightarrow> thrown + view" where
  "render e token st =
     (case filteredAndSortedListings e (listings st) (searchQuery st) of
        Inl t \<Rightarrow> Inl t
      | Inr shown \<Rightarrow>
          Inr (if loading st then LoadingView
               else if token_missing token then LoginView
               else Page
                 \<lparr> scrapeDisabled = scraping st,
                   scrapeLabel = (if scraping st then ''Scraping...'' else ''Scrape New Listings''),
                   totalShown = total_count (stats st),
                   unseenShown = unseen_count (stats st),
                   searchValue = searchQuery st,
                   unseenChecked = showOnlyUnseen st,
                   errorBanner = (case error st of
                                    None \<Rightarrow> None
                                  | Some m \<Rightarrow> if m = [] then None else Some m),
                   area = (if shown = []
                           then NoListings (if searchQuery st \<noteq> []
                                            then ''No listings match your search''
                                            else ''No listings found'')
                           else Grid (map (listing_card e) shown)) \<rparr>))"

section \<open>Events\<close>

text \<open>
  What the user and React can trigger: the effect of line 204 (on mount and whenever
  \<^verbatim>\<open>showOnlyUnseen\<close> changes) and the handlers wired in the JSX. A control exists only
  when the page is rendered; the scrape button is disabled while scraping, the retry
  button exists only inside the error banner, and \<open>ClickMarkSeen i\<close> is a click on the
  button of the card at position \<open>i\<close>, when that card has one.
\<close>

datatype event =
    Mount
  | ChangeSearch string
  | ChangeUnseen bool
  | ClickScrape
  | ClickExportCsv
  | ClickLogout
  | ClickRetry
  | ClickMarkSeen nat

definition page_event ::
  "'w env \<Rightarrow> string option \<Rightarrow> page \<Rightarrow> event \<Rightarrow> dashboard \<times> 'w \<Rightarrow> dashboard \<times> 'w" where
  "page_event e token p ev sw =
     (case ev of
        Mount \<Rightarrow> sw
      | ChangeSearch q \<Rightarrow> (case sw of (st, w) \<Rightarrow> (st\<lparr>searchQuery := q\<rparr>, w))
      | ChangeUnseen b \<Rightarrow>
          (case sw of (st, w) \<Rightarrow>
             if b = showOnlyUnseen st then sw
             else fetchListings e token (st\<lparr>showOnlyUnseen := b\<rparr>, w))
      | ClickScrape \<Rightarrow> if scrapeDisabled p then sw else scrapeListings e token sw
      | ClickExportCsv \<Rightarrow> exportListings e token Csv sw
      | ClickLogout \<Rightarrow> handleLogout e sw
      | ClickRetry \<Rightarrow> if errorBanner p = None then sw else handleRetry e token sw
      | ClickMarkSeen i \<Rightarrow>
          (case area p of
             NoListings m \<Rightarrow> sw
           | Grid cards \<Rightarrow>
               if i < length cards
               then (case markSeenButton (cards ! i) of
                       None \<Rightarrow> sw
                     | Some listingIds \<Rightarrow> markAsSeen e token listingIds sw)
               else sw))"

definition dispatch ::
  "'w env \<Rightarrow> string option \<Rightarrow> event \<Rightarrow> dashboard \<times> 'w \<Rightarrow> dashboard \<times> 'w" where
  "dispatch e token ev sw =
     (if ev = Mount then fetchListings e token sw
      else case render e token (fst sw) of
             Inr (Page p) \<Rightarrow> page_event e token p ev sw
           | _ \<Rightarrow> sw)"

text \<open>
  The states the component can be in: it starts in \<open>initial\<close> and every event, under
  whatever token the auth context then provides, takes it to the next state.
\<close>

inductive reachable :: "'w env \<Rightarrow> dashboard \<times> 'w \<Rightarrow> bool" for e :: "'w env" where
  start: "reachable e (initial, w)"
| step: "reachable e sw \<Longrightarrow> reachable e (dispatch e token ev sw)"

section \<open>Observing the requests; a scripted network for examples\<close>

text \<open>
  \<open>traced e\<close> behaves as \<open>e\<close> and appends every request handed to axios to a log kept
  beside the world.
\<close>

definition traced :: "'w env \<Rightarrow> ('w \<times> request list) env" where
  "traced e =
     \<lparr> http = (\<lambda>r wl. case wl of (w, lg) \<Rightarrow>
                 (case http e r w of (res, w') \<Rightarrow> (res, (w', lg @ [r])))),
       alert = (\<lambda>s wl. case wl of (w, lg) \<Rightarrow> (alert e s w, lg)),
       logout = (\<lambda>wl. case wl of (w, lg) \<Rightarrow> (logout e w, lg)),
       navigate = (\<lambda>s wl. case wl of (w, lg) \<Rightarrow> (navigate e s w, lg)),
       REACT_APP_API_URL = REACT_APP_API_URL e,
       numToString = numToString e,
       getTime = getTime e,
       toLocaleDateString = toLocaleDateString e \<rparr>"

text \<open>
  A network that answers the requests, in order, with the outcomes queued in the world
  (and with a network error once the queue is empty), and a small table of dates.
\<close>

definition network_error :: thrown where
  "network_error =
     AxiosError \<lparr> response = None, code = Some ''ERR_NETWORK'', message = ''Network Error'' \<rparr>"

definition scripted :: "(js outcome list) env" where
  "scripted =
     \<lparr> http = (\<lambda>r w. case w of [] \<Rightarrow> (Rejected network_error, []) | x # xs \<Rightarrow> (x, xs)),
       alert = (\<lambda>s w. w),
       logout = (\<lambda>w. w),
       navigate = (\<lambda>s w. w),
       REACT_APP_API_URL = None,
       numToString = (\<lambda>n. if n = 0 then ''0'' else ''1''),
       getTime = (\<lambda>v. case v of
                         JStr s \<Rightarrow> map_of [(''2024-05-01T10:00:00Z'', 1714557600000),
                                            (''2024-05-02T10:00:00Z'', 1714644000000),
                                            (''2024-05-03T10:00:00Z'', 1714730400000)] s
                       | _ \<Rightarrow> None),
       toLocaleDateString = (\<lambda>v. case v of JStr s \<Rightarrow> take 10 s | _ \<Rightarrow> ''Invalid Date'') \<rparr>"

definition sample_listing :: "string \<Rightarrow> string \<Rightarrow> js \<Rightarrow> js \<Rightarrow> js" where
  "sample_listing ident scraped seen_value img =
     JObj [(''id'', JStr ident), (''title'', JStr (''Bike '' @ ident)),
           (''price'', JStr ''100''), (''location'', JStr ''Lisboa''),
           (''date'', JStr ''Hoje''), (''link'', JStr (''https://olx.example/'' @ ident)),
           (''image_url'', img), (''scraped_at'', JStr scraped),
           (''is_new'', JBool False), (''seen'', seen_value)]"

section \<open>Vocabulary of the properties\<close>

text \<open>
  The time of a listing's \<open>scraped_at\<close>, and the order "\<open>a\<close> was scraped no earlier
  than \<open>b\<close>" between two listings whose dates are valid.
\<close>

definition scraped_time :: "'w env \<Rightarrow> js \<Rightarrow> int option" where
  "scraped_time e l = getTime e (js_prop l ''scraped_at'')"

definition newer_or_equal :: "'w env \<Rightarrow> js \<Rightarrow> js \<Rightarrow> bool" where
  "newer_or_equal e a b =
     (case (scraped_time e a, scraped_time e b) of
        (Some ta, Some tb) \<Rightarrow> tb \<le> ta
      | _ \<Rightarrow> False)"

text \<open>
  The listing area of a rendered page; the invariant that every stored listing has
  passed the validation; the requests that one event makes the dashboard issue; the
  four kinds of request the component can build; and a state with one unseen listing
  without image.
\<close>

definition area_of :: "thrown + view \<Rightarrow> listing_area option" where
  "area_of r = (case r of Inr (Page p) \<Rightarrow> Some (area p) | _ \<Rightarrow> None)"

definition listings_valid :: "dashboard \<Rightarrow> bool" where
  "listings_valid st = (\<forall>l\<in>set (listings st). validListing l = Inr True)"

definition requests_of ::
  "'w env \<Rightarrow> string option \<Rightarrow> event \<Rightarrow> dashboard \<times> 'w \<Rightarrow> request list" where
  "requests_of e token ev sw = snd (snd (dispatch (traced e) token ev (fst sw, (snd sw, []))))"

definition dashboard_request :: "'w env \<Rightarrow> string option \<Rightarrow> dashboard \<Rightarrow> request \<Rightarrow> bool" where
  "dashboard_request e token st r =
     ((\<exists>b. r = listings_request e token b)
      \<or> r = scrape_request e token
      \<or> (\<exists>b. r = export_request e token Csv b)
      \<or> (\<exists>l\<in>set (listings st). \<not> ToBoolean (js_prop l ''seen'')
                                \<and> r = mark_seen_request e token [js_prop l ''id'']))"

definition loaded :: dashboard where
  "loaded = initial\<lparr>listings := [sample_listing ''1'' ''2024-05-01T10:00:00Z'' (JBool False) JNull],
                     loading := False\<rparr>"

text \<open>A listing whose link is the empty string.\<close>

definition empty_link_listing :: js where
  "empty_link_listing =
     JObj [(''id'', JStr ''9''), (''title'', JStr ''Sofa''), (''price'', JStr ''50''),
           (''location'', JStr ''Porto''), (''link'', JStr []),
           (''image_url'', JNull), (''scraped_at'', JStr ''2024-05-01T10:00:00Z''),
           (''seen'', JBool False)]"

section \<open>A backend for the examples\<close>

text \<open>
  Modelled from the spec: the server behind the endpoints of section 6 (the repository's
  \<^verbatim>\<open>main.py\<close>, \<^verbatim>\<open>scraper.py\<close> and \<^verbatim>\<open>scheduler.py\<close>, which are not embedded here;
  only the dashboard component is). The world is the Store of
  section 4.3, the list of persisted listings. \<^verbatim>\<open>GET listings?include_seen=\<close> returns all
  persisted listings, or those whose \<open>seen\<close> is not true; \<^verbatim>\<open>POST scrape\<close> runs a
  reconciliation of the candidates of the run (given as the records to insert, with
  \<open>seen = false\<close>; a candidate whose id is known is discarded) and returns
  \<^verbatim>\<open>{total_listings, unseen_listings}\<close> of the Store after the run;
  \<^verbatim>\<open>POST listings/mark-seen\<close> sets \<open>seen\<close> for the ids that are found and returns their
  number. Any other request is answered 404. The credential is not looked at.
\<close>

definition store_unseen :: "js list \<Rightarrow> js list" where
  "store_unseen store = filter (\<lambda>l. js_prop l ''seen'' \<noteq> JBool True) store"

definition store_stats :: "js list \<Rightarrow> js" where
  "store_stats store =
     JObj [(''total_listings'', JNum (real (length store))),
           (''unseen_listings'', JNum (real (length (store_unseen store))))]"

fun reconcile :: "js list \<Rightarrow> js list \<Rightarrow> js list" where
  "reconcile store [] = store"
| "reconcile store (c # cs) =
     reconcile (if js_prop c ''id'' \<in> set (map (\<lambda>l. js_prop l ''id'') store)
                then store else store @ [c]) cs"

fun set_seen :: "js \<Rightarrow> js" where
  "set_seen (JObj kvs) = JObj ((''seen'', JBool True) # kvs)"
| "set_seen v = v"

definition mark_seen :: "js list \<Rightarrow> js list \<Rightarrow> js list" where
  "mark_seen ids store = map (\<lambda>l. if js_prop l ''id'' \<in> set ids then set_seen l else l) store"

definition backend :: "js list \<Rightarrow> (js list) env" where
  "backend candidates =
     \<lparr> http = (\<lambda>r store.
        if verb r = GET \<and> url r = ''http://localhost:8000/listings?include_seen=true''
          then (Resolved (JArr store), store)
        else if verb r = GET \<and> url r = ''http://localhost:8000/listings?include_seen=false''
          then (Resolved (JArr (store_unseen store)), store)
        else if verb r = POST \<and> url r = ''http://localhost:8000/scrape''
          then (Resolved (store_stats (reconcile store candidates)), reconcile store candidates)
        else if verb r = POST \<and> url r = ''http://localhost:8000/listings/mark-seen''
          then (case body r of
                  JArr ids \<Rightarrow>
                    (Resolved (JNum (real (length
                       (filter (\<lambda>l. js_prop l ''id'' \<in> set ids) store)))),
                     mark_seen ids store)
                | _ \<Rightarrow> (Resolved (JNum 0), store))
        else (Rejected (AxiosError \<lparr> response = Some \<lparr> status = 404, data = JNull \<rparr>,
                                      code = Some ''ERR_BAD_REQUEST'',
                                      message = ''Request failed with status code 404'' \<rparr>),
              store)),
       alert = (\<lambda>s w. w),
       logout = (\<lambda>w. w),
       navigate = (\<lambda>s w. w),
       REACT_APP_API_URL = None,
       numToString = numToString scripted,
       getTime = getTime scripted,
       toLocaleDateString = toLocaleDateString scripted \<rparr>"

definition two_listings :: "js list" where
  "two_listings = [sample_listing ''1'' ''2024-05-01T10:00:00Z'' (JBool True) JNull,
                   sample_listing ''2'' ''2024-05-02T10:00:00Z'' (JBool False) JNull]"

section \<open>Auxiliary facts\<close>

lemma filter_res_Inr:
  "filter_res p xs = Inr ys \<Longrightarrow> ys = filter (\<lambda>x. p x = Inr True) xs"
  by (induction xs arbitrary: ys) (auto split: sum.splits if_splits)

lemma filter_res_total:
  "\<forall>x\<in>set xs. \<exists>b. p x = Inr b \<Longrightarrow> filter_res p xs = Inr (filter (\<lambda>x. p x = Inr True) xs)"
  by (induction xs) (auto split: sum.splits)

lemma fetch_try_Rejected:
  "fetch_try e (Rejected t) st = st\<lparr>error := Some (fetch_error_message e t)\<rparr>"
  by (simp add: fetch_try_def)

lemma fetch_try_not_array:
  "\<forall>xs. d \<noteq> JArr xs \<Longrightarrow>
   fetch_try e (Resolved d) st = st\<lparr>error := Some ''Invalid response format from server''\<rparr>"
  by (cases d) (simp_all add: fetch_try_def)

lemma fetch_try_throwing:
  "filter_res validListing xs = Inl t \<Longrightarrow>
   fetch_try e (Resolved (JArr xs)) st = st\<lparr>error := Some (fetch_error_message e t)\<rparr>"
  by (simp add: fetch_try_def)

lemma fetch_try_valid:
  "filter_res validListing xs = Inr ys \<Longrightarrow>
   fetch_try e (Resolved (JArr xs)) st =
     st\<lparr>listings := ys,
        stats := \<lparr> total_count = JNum (real (length ys)),
                   unseen_count = JNum (real (length
                     (filter (\<lambda>l. \<not> ToBoolean (js_prop l ''seen'')) ys))) \<rparr>,
        retryCount := 0\<rparr>"
  by (simp add: fetch_try_def)

lemma fetchListings_no_token:
  "token_missing token \<Longrightarrow>
   fetchListings e token (st, w) =
     (st\<lparr>error := Some ''Authentication token is missing'', loading := False\<rparr>, w)"
  by (simp add: fetchListings_def)

lemma fetchListings_token:
  "\<not> token_missing token \<Longrightarrow>
   fetchListings e token (st, w) =
     ((fetch_try e (fst (http e (listings_request e token (showOnlyUnseen st)) w))
         (st\<lparr>loading := True, error := None\<rparr>))\<lparr>loading := False\<rparr>,
      snd (http e (listings_request e token (showOnlyUnseen st)) w))"
  by (simp add: fetchListings_def split: prod.splits)

lemma scripted_http_Cons: "http scripted r (x # xs) = (x, xs)"
  by (simp add: scripted_def)

lemma scripted_http_Nil: "http scripted r [] = (Rejected network_error, [])"
  by (simp add: scripted_def)

lemma typeof_string_iff: "typeof v = ''string'' \<longleftrightarrow> (\<exists>s. v = JStr s)"
  by (cases v) simp_all

lemma validListing_JNull: "validListing JNull = Inl TypeError"
  by (simp add: validListing_def and_then_def typeof_member_def member_def)

lemma validListing_not_null:
  "l \<noteq> JNull \<Longrightarrow>
   validListing l = Inr (typeof l = ''object''
                         \<and> typeof (js_prop l ''id'') = ''string''
                         \<and> typeof (js_prop l ''title'') = ''string''
                         \<and> typeof (js_prop l ''price'') = ''string''
                         \<and> typeof (js_prop l ''location'') = ''string''
                         \<and> typeof (js_prop l ''link'') = ''string'')"
  by (cases l) (simp_all add: validListing_def and_then_def typeof_member_def member_def)

lemma validListing_throws_iff: "validListing l = Inl t \<longleftrightarrow> l = JNull \<and> t = TypeError"
  by (cases "l = JNull") (auto simp: validListing_JNull validListing_not_null)

lemma validListing_True_iff:
  "validListing l = Inr True \<longleftrightarrow>
     (\<exists>kvs. l = JObj kvs)
     \<and> typeof (js_prop l ''id'') = ''string''
     \<and> typeof (js_prop l ''title'') = ''string''
     \<and> typeof (js_prop l ''price'') = ''string''
     \<and> typeof (js_prop l ''location'') = ''string''
     \<and> typeof (js_prop l ''link'') = ''string''"
  by (cases l) (simp_all add: validListing_JNull validListing_not_null)

lemma filter_res_validListing:
  "JNull \<notin> set xs \<Longrightarrow>
   filter_res validListing xs = Inr (filter (\<lambda>l. validListing l = Inr True) xs)"
proof (rule filter_res_total, rule ballI)
  fix x assume "JNull \<notin> set xs" "x \<in> set xs"
  then have "x \<noteq> JNull" by auto
  then show "\<exists>b. validListing x = Inr b" by (simp add: validListing_not_null)
qed

lemma not_truthy_boolean:
  "typeof v = ''boolean'' \<or> typeof v = ''undefined'' \<Longrightarrow> (\<not> ToBoolean v) = (v \<noteq> JBool True)"
  by (cases v) auto

lemma fetchListings_success:
  assumes "\<not> token_missing token"
    and "fst (http e (listings_request e token (showOnlyUnseen st)) w) = Resolved (JArr xs)"
    and "JNull \<notin> set xs"
  shows "fst (fetchListings e token (st, w)) =
           st\<lparr>listings := filter (\<lambda>l. validListing l = Inr True) xs,
              loading := False,
              error := None,
              stats := \<lparr> total_count =
                           JNum (real (length (filter (\<lambda>l. validListing l = Inr True) xs))),
                         unseen_count =
                           JNum (real (length (filter (\<lambda>l. \<not> ToBoolean (js_prop l ''seen''))
                                   (filter (\<lambda>l. validListing l = Inr True) xs)))) \<rparr>,
              retryCount := 0\<rparr>"
  using assms
  by (simp add: fetchListings_token fetch_try_valid [OF filter_res_validListing])

lemma sample_listing_props:
  "js_prop (sample_listing i a s g) ''id'' = JStr i"
  "js_prop (sample_listing i a s g) ''title'' = JStr (''Bike '' @ i)"
  "js_prop (sample_listing i a s g) ''price'' = JStr ''100''"
  "js_prop (sample_listing i a s g) ''location'' = JStr ''Lisboa''"
  "js_prop (sample_listing i a s g) ''link'' = JStr (''https://olx.example/'' @ i)"
  "js_prop (sample_listing i a s g) ''image_url'' = g"
  "js_prop (sample_listing i a s g) ''scraped_at'' = JStr a"
  "js_prop (sample_listing i a s g) ''seen'' = s"
  by (simp_all add: sample_listing_def)

lemma sample_listing_valid: "validListing (sample_listing i a s g) = Inr True"
  by (simp add: validListing_True_iff sample_listing_props) (simp add: sample_listing_def)

lemma sample_listing_not_null: "sample_listing i a s g \<noteq> JNull"
  by (simp add: sample_listing_def)

lemma token_present: "\<not> token_missing (Some ''tok'')"
  by (simp add: token_missing_def)

lemma API_URL_traced: "API_URL (traced e) = API_URL e"
  by (simp add: API_URL_def traced_def)

lemma listings_request_traced: "listings_request (traced e) token b = listings_request e token b"
  by (simp add: listings_request_def API_URL_traced)

lemma http_traced:
  "http (traced e) r (w, lg) = (fst (http e r w), (snd (http e r w), lg @ [r]))"
  by (simp add: traced_def split: prod.splits)

lemma mset_insert_by: "mset (insert_by cmp x xs) = add_mset x (mset xs)"
  by (induction xs) auto

lemma mset_sort_by: "mset (sort_by cmp xs) = mset xs"
  by (induction xs) (auto simp: sort_by_def mset_insert_by)

lemma set_insert_by: "set (insert_by cmp x xs) = insert x (set xs)"
  by (induction xs) auto

lemma set_sort_by: "set (sort_by cmp xs) = set xs"
  by (metis mset_sort_by set_mset_mset)

lemma compare_scraped_le:
  "scraped_time e a = Some ta \<Longrightarrow> scraped_time e b = Some tb \<Longrightarrow>
   (compare_scraped e a b \<le> 0) = (tb \<le> ta)"
  by (simp add: compare_scraped_def scraped_time_def)

lemma newer_or_equal_Some:
  "scraped_time e a = Some ta \<Longrightarrow> scraped_time e b = Some tb \<Longrightarrow>
   newer_or_equal e a b = (tb \<le> ta)"
  by (simp add: newer_or_equal_def)

lemma insert_by_sorted:
  assumes "scraped_time e x \<noteq> None"
    and "\<forall>l\<in>set xs. scraped_time e l \<noteq> None"
    and "sorted_wrt (newer_or_equal e) xs"
  shows "sorted_wrt (newer_or_equal e) (insert_by (compare_scraped e) x xs)"
  using assms
proof (induction xs)
  case Nil
  then show ?case by simp
next
  case (Cons y ys)
  from Cons.prems obtain tx ty where tx: "scraped_time e x = Some tx"
    and ty: "scraped_time e y = Some ty" by auto
  show ?case
  proof (cases "compare_scraped e x y \<le> 0")
    case True
    then have xy: "ty \<le> tx" using compare_scraped_le [OF tx ty] by simp
    have "newer_or_equal e x z" if "z \<in> set ys" for z
    proof -
      from that Cons.prems obtain tz where tz: "scraped_time e z = Some tz" by auto
      from that Cons.prems have "newer_or_equal e y z" by simp
      then have "tz \<le> ty" using newer_or_equal_Some [OF ty tz] by simp
      with xy show ?thesis using newer_or_equal_Some [OF tx tz] by simp
    qed
    moreover have "newer_or_equal e x y"
      using xy newer_or_equal_Some [OF tx ty] by simp
    ultimately show ?thesis using True Cons.prems by simp
  next
    case False
    then have "tx \<le> ty" using compare_scraped_le [OF tx ty] by simp
    then have "newer_or_equal e y x" using newer_or_equal_Some [OF ty tx] by simp
    moreover have "sorted_wrt (newer_or_equal e) (insert_by (compare_scraped e) x ys)"
      using Cons by simp
    ultimately show ?thesis using False Cons.prems by (simp add: set_insert_by)
  qed
qed

lemma sort_by_sorted:
  "\<forall>l\<in>set xs. scraped_time e l \<noteq> None \<Longrightarrow>
   sorted_wrt (newer_or_equal e) (sort_by (compare_scraped e) xs)"
proof (induction xs)
  case Nil
  then show ?case by (simp add: sort_by_def)
next
  case (Cons x xs)
  have "sorted_wrt (newer_or_equal e)
          (insert_by (compare_scraped e) x (sort_by (compare_scraped e) xs))"
    using Cons by (intro insert_by_sorted) (simp_all add: set_sort_by)
  then show ?case by (simp add: sort_by_def)
qed

lemma str_includes_Nil: "str_includes s []"
  by (induction s) simp_all

lemma matchesSearch_valid:
  assumes "validListing l = Inr True"
  shows "\<exists>b. matchesSearch q l = Inr b"
proof -
  from assms obtain kvs t lo p where "l = JObj kvs" "js_prop l ''title'' = JStr t"
    "js_prop l ''location'' = JStr lo" "js_prop l ''price'' = JStr p"
    by (auto simp: validListing_True_iff typeof_string_iff)
  then show ?thesis
    by (auto simp: matchesSearch_def or_else_def field_includes_def member_def Let_def)
qed

lemma matchesSearch_empty:
  assumes "validListing l = Inr True"
  shows "matchesSearch [] l = Inr True"
proof -
  from assms obtain kvs t where "l = JObj kvs" "js_prop l ''title'' = JStr t"
    by (auto simp: validListing_True_iff typeof_string_iff)
  then show ?thesis
    by (simp add: matchesSearch_def or_else_def field_includes_def member_def Let_def
          toLowerCase_def str_includes_Nil)
qed

lemma filtered_valid:
  assumes "\<forall>l\<in>set ls. validListing l = Inr True"
  shows "filteredAndSortedListings e ls q =
           Inr (sort_by (compare_scraped e) (filter (\<lambda>l. matchesSearch q l = Inr True) ls))"
proof -
  have "filter_res (matchesSearch q) ls = Inr (filter (\<lambda>l. matchesSearch q l = Inr True) ls)"
    using assms by (intro filter_res_total) (simp add: matchesSearch_valid)
  then show ?thesis by (simp add: filteredAndSortedListings_def)
qed

lemma scripted_getTime:
  "getTime scripted (JStr ''2024-05-01T10:00:00Z'') = Some 1714557600000"
  "getTime scripted (JStr ''2024-05-02T10:00:00Z'') = Some 1714644000000"
  "getTime scripted (JStr ''2024-05-03T10:00:00Z'') = Some 1714730400000"
  by (simp_all add: scripted_def)

lemma lower_char_samples:
  "lower_char CHR ''B'' = CHR ''b''"
  "lower_char CHR ''i'' = CHR ''i''"
  "lower_char CHR ''k'' = CHR ''k''"
  "lower_char CHR ''e'' = CHR ''e''"
  by code_simp+

lemma bike_title_matches:
  "str_includes (toLowerCase (CHR ''B'' # CHR ''i'' # CHR ''k'' # CHR ''e'' # s)) ''bike''"
  by (simp add: toLowerCase_def lower_char_samples)

lemma toLowerCase_bike: "toLowerCase ''bike'' = ''bike''"
  by code_simp

lemma member_sample_listing: "member (sample_listing i a s g) k = Inr (js_prop (sample_listing i a s g) k)"
  by (simp add: member_def sample_listing_def)

lemma sample_title_includes: "field_includes (sample_listing i a s g) ''title'' ''bike'' = Inr True"
  by (simp add: field_includes_def member_sample_listing sample_listing_props bike_title_matches)

lemma or_else_True: "or_else (Inr True) b = Inr True"
  by (simp add: or_else_def)

lemma sample_listing_matches: "matchesSearch ''bike'' (sample_listing i a s g) = Inr True"
  by (simp only: matchesSearch_def Let_def toLowerCase_bike sample_title_includes or_else_True)

lemma filteredAndSorted_Nil: "filteredAndSortedListings e [] q = Inr []"
  by (simp add: filteredAndSortedListings_def sort_by_def)

lemma fetch_error_message_nonempty: "fetch_error_message e t \<noteq> []"
  by (cases t) (simp_all add: fetch_error_message_def)

lemma action_error_message_nonempty: "action_error_message e what t \<noteq> []"
  by (cases t) (simp_all add: action_error_message_def)

lemma fetchListings_empty:
  assumes "\<not> token_missing token"
    and "fst (http e (listings_request e token (showOnlyUnseen st)) w) = Resolved (JArr [])"
  shows "fst (fetchListings e token (st, w)) =
           st\<lparr>listings := [], loading := False, error := None,
              stats := \<lparr> total_count = JNum 0, unseen_count = JNum 0 \<rparr>, retryCount := 0\<rparr>"
  using fetchListings_success [OF assms] by simp

lemma scrapeListings_rejected:
  "fst (http e (scrape_request e token) w) = Rejected t \<Longrightarrow>
   fst (scrapeListings e token (st, w)) =
     st\<lparr>scraping := False, error := Some (action_error_message e ''scrape listings'' t)\<rparr>"
  by (cases "http e (scrape_request e token) w") (simp add: scrapeListings_def Let_def)

lemma render_valid:
  assumes "listings_valid st"
  shows "render e token st =
     Inr (if loading st then LoadingView
          else if token_missing token then LoginView
          else Page
            \<lparr> scrapeDisabled = scraping st,
              scrapeLabel = (if scraping st then ''Scraping...'' else ''Scrape New Listings''),
              totalShown = total_count (stats st),
              unseenShown = unseen_count (stats st),
              searchValue = searchQuery st,
              unseenChecked = showOnlyUnseen st,
              errorBanner = (case error st of
                               None \<Rightarrow> None
                             | Some m \<Rightarrow> if m = [] then None else Some m),
              area = (let shown = sort_by (compare_scraped e)
                                    (filter (\<lambda>l. matchesSearch (searchQuery st) l = Inr True)
                                       (listings st))
                      in if shown = []
                         then NoListings (if searchQuery st \<noteq> []
                                          then ''No listings match your search''
                                          else ''No listings found'')
                         else Grid (map (listing_card e) shown)) \<rparr>)"
  using assms by (simp add: render_def listings_valid_def filtered_valid Let_def)

lemma traced_builtins:
  "getTime (traced e) = getTime e"
  "numToString (traced e) = numToString e"
  "toLocaleDateString (traced e) = toLocaleDateString e"
  "alert (traced e) s (w, lg) = (alert e s w, lg)"
  "logout (traced e) (w, lg) = (logout e w, lg)"
  "navigate (traced e) s (w, lg) = (navigate e s w, lg)"
  by (simp_all add: traced_def)

lemma scrape_request_traced: "scrape_request (traced e) token = scrape_request e token"
  by (simp add: scrape_request_def API_URL_traced)

lemma mark_seen_request_traced:
  "mark_seen_request (traced e) token ids = mark_seen_request e token ids"
  by (simp add: mark_seen_request_def API_URL_traced)

lemma export_request_traced:
  "export_request (traced e) token fmt b = export_request e token fmt b"
  by (simp add: export_request_def API_URL_traced)

lemma compare_scraped_traced: "compare_scraped (traced e) = compare_scraped e"
  by (intro ext) (simp add: compare_scraped_def traced_builtins)

lemma listing_card_traced: "listing_card (traced e) = listing_card e"
  by (intro ext) (simp add: listing_card_def traced_builtins)

lemma render_traced: "render (traced e) token st = render e token st"
  by (simp add: render_def filteredAndSortedListings_def compare_scraped_traced
        listing_card_traced split: sum.splits)

lemma fetch_trace:
  "snd (snd (fetchListings (traced e) token (st, (w, lg)))) =
     lg @ (if token_missing token then [] else [listings_request e token (showOnlyUnseen st)])"
  by (simp add: fetchListings_no_token fetchListings_token listings_request_traced http_traced)

lemma fetch_trace_set:
  "set (snd (snd (fetchListings (traced e) token (st, wl))))
     \<subseteq> set (snd wl) \<union> {listings_request e token (showOnlyUnseen st)}"
  by (cases wl) (auto simp: fetch_trace)

lemma scrape_trace:
  "snd (snd (scrapeListings (traced e) token (st, (w, lg)))) =
     lg @ scrape_request e token #
       (case fst (http e (scrape_request e token) w) of
          Rejected t \<Rightarrow> []
        | Resolved d \<Rightarrow> if d = JUndefined \<or> d = JNull \<or> token_missing token then []
                        else [listings_request e token (showOnlyUnseen st)])"
  by (simp add: scrapeListings_def scrape_request_traced http_traced Let_def case_prod_beta
        fetch_trace member_def split: outcome.splits)

lemma mark_seen_trace:
  "snd (snd (markAsSeen (traced e) token ids (st, (w, lg)))) =
     lg @ mark_seen_request e token ids #
       (case fst (http e (mark_seen_request e token ids) w) of
          Rejected t \<Rightarrow> []
        | Resolved d \<Rightarrow> if token_missing token then []
                        else [listings_request e token (showOnlyUnseen st)])"
  by (cases "http e (mark_seen_request e token ids) w")
     (simp add: markAsSeen_def mark_seen_request_traced http_traced fetch_trace
           split: outcome.splits)

lemma export_trace:
  "snd (snd (exportListings (traced e) token fmt (st, (w, lg)))) =
     lg @ [export_request e token fmt (showOnlyUnseen st)]"
  by (cases "http e (export_request e token fmt (showOnlyUnseen st)) w")
     (simp add: exportListings_def export_request_traced http_traced traced_builtins
           split: outcome.splits)

lemma retry_trace:
  "snd (snd (handleRetry (traced e) token (st, (w, lg)))) =
     lg @ (if token_missing token then [] else [listings_request e token (showOnlyUnseen st)])"
  by (simp add: handleRetry_def fetch_trace)

lemma logout_trace: "snd (snd (handleLogout (traced e) (st, (w, lg)))) = lg"
  by (simp add: handleLogout_def traced_builtins)


lemma listings_valid_simps:
  "listings_valid (st\<lparr>error := x\<rparr>) = listings_valid st"
  "listings_valid (st\<lparr>loading := b\<rparr>) = listings_valid st"
  "listings_valid (st\<lparr>scraping := b\<rparr>) = listings_valid st"
  "listings_valid (st\<lparr>stats := s\<rparr>) = listings_valid st"
  "listings_valid (st\<lparr>retryCount := n\<rparr>) = listings_valid st"
  "listings_valid (st\<lparr>searchQuery := q\<rparr>) = listings_valid st"
  "listings_valid (st\<lparr>showOnlyUnseen := b\<rparr>) = listings_valid st"
  by (simp_all add: listings_valid_def)

lemma initial_valid: "listings_valid initial"
  by (simp add: listings_valid_def initial_def)

lemma fetch_try_keeps_valid:
  assumes "listings_valid st"
  shows "listings_valid (fetch_try e res st)"
proof (cases res)
  case (Rejected t)
  with assms show ?thesis by (simp add: fetch_try_Rejected listings_valid_simps)
next
  case (Resolved d)
  show ?thesis
  proof (cases "\<exists>xs. d = JArr xs")
    case False
    with Resolved assms show ?thesis
      by (simp add: fetch_try_not_array listings_valid_simps)
  next
    case True
    then obtain xs where d: "d = JArr xs" by blast
    show ?thesis
    proof (cases "filter_res validListing xs")
      case (Inl t)
      with Resolved d assms show ?thesis
        by (simp add: fetch_try_throwing listings_valid_simps)
    next
      case (Inr ys)
      then have "ys = filter (\<lambda>l. validListing l = Inr True) xs"
        by (rule filter_res_Inr)
      with Resolved d Inr show ?thesis
        by (simp add: fetch_try_valid listings_valid_def)
    qed
  qed
qed

lemma fetchListings_keeps_valid:
  "listings_valid (fst sw) \<Longrightarrow> listings_valid (fst (fetchListings e token sw))"
  by (cases sw, cases "token_missing token")
     (simp_all add: fetchListings_no_token fetchListings_token listings_valid_simps
        fetch_try_keeps_valid)

lemma scrapeListings_keeps_valid:
  "listings_valid (fst sw) \<Longrightarrow> listings_valid (fst (scrapeListings e token sw))"
  by (cases sw)
     (simp add: scrapeListings_def Let_def case_prod_beta listings_valid_simps
        fetchListings_keeps_valid split: outcome.splits sum.splits)

lemma markAsSeen_keeps_valid:
  "listings_valid (fst sw) \<Longrightarrow> listings_valid (fst (markAsSeen e token ids sw))"
  by (cases sw)
     (simp add: markAsSeen_def case_prod_beta listings_valid_simps
        fetchListings_keeps_valid split: outcome.splits)

lemma exportListings_keeps_valid:
  "listings_valid (fst sw) \<Longrightarrow> listings_valid (fst (exportListings e token fmt sw))"
  by (cases sw)
     (simp add: exportListings_def case_prod_beta listings_valid_simps split: outcome.splits)

lemma handleRetry_keeps_valid:
  "listings_valid (fst sw) \<Longrightarrow> listings_valid (fst (handleRetry e token sw))"
  by (cases sw) (simp add: handleRetry_def fetchListings_keeps_valid listings_valid_simps)

lemma handleLogout_keeps_valid:
  "listings_valid (fst sw) \<Longrightarrow> listings_valid (fst (handleLogout e sw))"
  by (cases sw) (simp add: handleLogout_def)

lemma page_event_keeps_valid:
  "listings_valid (fst sw) \<Longrightarrow> listings_valid (fst (page_event e token p ev sw))"
  by (cases sw, cases ev)
     (simp_all add: page_event_def listings_valid_simps fetchListings_keeps_valid
        scrapeListings_keeps_valid markAsSeen_keeps_valid exportListings_keeps_valid
        handleRetry_keeps_valid handleLogout_keeps_valid
        split: listing_area.splits option.splits)

lemma dispatch_keeps_valid:
  "listings_valid (fst sw) \<Longrightarrow> listings_valid (fst (dispatch e token ev sw))"
  by (simp add: dispatch_def fetchListings_keeps_valid page_event_keeps_valid
        split: sum.splits view.splits)

text \<open>Every listing the component ever stores has passed the validation.\<close>

lemma reachable_valid: "reachable e sw \<Longrightarrow> listings_valid (fst sw)"
  by (induction rule: reachable.induct) (simp_all add: initial_valid dispatch_keeps_valid)

lemma set_filter_res: "filter_res p xs = Inr ys \<Longrightarrow> set ys \<subseteq> set xs"
  by (drule filter_res_Inr) auto

lemma shown_subset:
  "filteredAndSortedListings e ls q = Inr shown \<Longrightarrow> set shown \<subseteq> set ls"
proof -
  assume a: "filteredAndSortedListings e ls q = Inr shown"
  then obtain filtered where f: "filter_res (matchesSearch q) ls = Inr filtered"
    and s: "shown = sort_by (compare_scraped e) filtered"
    by (auto simp: filteredAndSortedListings_def split: sum.splits)
  from set_filter_res [OF f] s show ?thesis by (simp add: set_sort_by)
qed

lemma render_Grid:
  assumes "render e token st = Inr (Page p)" and "area p = Grid cards"
  shows "\<exists>shown. set shown \<subseteq> set (listings st) \<and> cards = map (listing_card e) shown"
proof -
  from assms(1) obtain shown
    where sh: "filteredAndSortedListings e (listings st) (searchQuery st) = Inr shown"
    by (auto simp: render_def split: sum.splits)
  with assms have "cards = map (listing_card e) shown"
    by (auto simp: render_def split: if_splits)
  with shown_subset [OF sh] show ?thesis by blast
qed

lemma card_button:
  "markSeenButton (listing_card e l) =
     (if ToBoolean (js_prop l ''seen'') then None else Some [js_prop l ''id''])"
  by (simp add: listing_card_def)

lemma page_event_requests:
  assumes "render e token st = Inr (Page p)"
    and "r \<in> set (snd (snd (page_event (traced e) token p ev (st, (w, [])))))"
  shows "dashboard_request e token st r"
proof (cases ev)
  case Mount
  with assms show ?thesis by (simp add: page_event_def)
next
  case (ChangeSearch q)
  with assms show ?thesis by (simp add: page_event_def)
next
  case (ChangeUnseen b)
  with assms show ?thesis
    by (auto simp: page_event_def fetch_trace dashboard_request_def split: if_splits)
next
  case ClickScrape
  with assms show ?thesis
    by (auto simp: page_event_def scrape_trace dashboard_request_def
             split: if_splits outcome.splits)
next
  case ClickExportCsv
  with assms show ?thesis
    by (auto simp: page_event_def export_trace dashboard_request_def)
next
  case ClickLogout
  with assms show ?thesis by (simp add: page_event_def logout_trace)
next
  case ClickRetry
  with assms show ?thesis
    by (auto simp: page_event_def retry_trace dashboard_request_def split: if_splits)
next
  case (ClickMarkSeen i)
  show ?thesis
  proof (cases "area p")
    case (NoListings m)
    with ClickMarkSeen assms show ?thesis by (simp add: page_event_def)
  next
    case (Grid cards)
    from render_Grid [OF assms(1) Grid] obtain shown
      where sub: "set shown \<subseteq> set (listings st)" and cards: "cards = map (listing_card e) shown"
      by blast
    show ?thesis
    proof (cases "i < length cards \<and> \<not> ToBoolean (js_prop (shown ! i) ''seen'')")
      case False
      then have "page_event (traced e) token p ev (st, (w, [])) = (st, (w, []))"
        using ClickMarkSeen Grid cards by (simp add: page_event_def card_button)
      with assms(2) show ?thesis by simp
    next
      case True
      then have mem: "shown ! i \<in> set (listings st)"
        using sub cards by (auto simp: subset_iff)
      from True ClickMarkSeen Grid cards assms(2)
      have "r \<in> set (mark_seen_request e token [js_prop (shown ! i) ''id''] #
               (case fst (http e (mark_seen_request e token [js_prop (shown ! i) ''id'']) w) of
                  Rejected t \<Rightarrow> []
                | Resolved d \<Rightarrow> if token_missing token then []
                                else [listings_request e token (showOnlyUnseen st)]))"
        by (simp add: page_event_def card_button mark_seen_trace)
      then have "r = mark_seen_request e token [js_prop (shown ! i) ''id'']
                 \<or> r = listings_request e token (showOnlyUnseen st)"
        by (auto split: outcome.splits if_splits)
      with True mem show ?thesis
        by (auto simp: dashboard_request_def)
    qed
  qed
qed

lemma requests_of_dashboard:
  assumes "r \<in> set (requests_of e token ev (st, w))"
  shows "dashboard_request e token st r"
proof (cases "ev = Mount")
  case True
  with assms show ?thesis
    by (auto simp: requests_of_def dispatch_def fetch_trace dashboard_request_def
             split: if_splits)
next
  case False
  show ?thesis
  proof (cases "render e token st")
    case (Inl t)
    with False assms show ?thesis
      by (simp add: requests_of_def dispatch_def render_traced)
  next
    case (Inr v)
    show ?thesis
    proof (cases v)
      case (Page p)
      with Inr False assms show ?thesis
        by (auto simp: requests_of_def dispatch_def render_traced
                 intro: page_event_requests)
    qed (use Inr False assms in \<open>simp_all add: requests_of_def dispatch_def render_traced\<close>)
  qed
qed

lemma loaded_valid: "listings_valid loaded"
  by (simp add: loaded_def listings_valid_def sample_listing_valid)

lemma loaded_fields:
  "listings loaded = [sample_listing ''1'' ''2024-05-01T10:00:00Z'' (JBool False) JNull]"
  "loading loaded = False" "searchQuery loaded = []" "error loaded = None"
  "scraping loaded = False" "showOnlyUnseen loaded = False"
  "stats loaded = \<lparr> total_count = JNum 0, unseen_count = JNum 0 \<rparr>"
  by (simp_all add: loaded_def initial_def)

lemma render_loaded:
  "render scripted (Some ''tok'') loaded =
     Inr (Page \<lparr> scrapeDisabled = False, scrapeLabel = ''Scrape New Listings'',
                 totalShown = JNum 0, unseenShown = JNum 0, searchValue = [],
                 unseenChecked = False, errorBanner = None,
                 area = Grid [listing_card scripted
                   (sample_listing ''1'' ''2024-05-01T10:00:00Z'' (JBool False) JNull)] \<rparr>)"
  by (simp add: render_valid [OF loaded_valid] loaded_fields token_present
        matchesSearch_empty sample_listing_valid sort_by_def)

lemma API_URL_scripted: "API_URL scripted = ''http://localhost:8000''"
  by (simp add: API_URL_def scripted_def)

lemma bearer_tok: "bearer (Some ''tok'') = ''Bearer tok''"
  by (simp add: bearer_def)

lemma API_URL_backend: "API_URL (backend c) = ''http://localhost:8000''"
  by (simp add: API_URL_def backend_def)

lemma store_unseen_two:
  "store_unseen two_listings = [sample_listing ''2'' ''2024-05-02T10:00:00Z'' (JBool False) JNull]"
  by (simp add: store_unseen_def two_listings_def sample_listing_props)

lemma backend_scrape:
  "http (backend []) (scrape_request (backend []) token) two_listings =
     (Resolved (JObj [(''total_listings'', JNum 2), (''unseen_listings'', JNum 1)]), two_listings)"
  by (simp add: scrape_request_def API_URL_backend)
     (simp add: backend_def store_stats_def store_unseen_two, simp add: two_listings_def)

lemma backend_list_unseen:
  "http (backend []) (listings_request (backend []) token True) two_listings =
     (Resolved (JArr [sample_listing ''2'' ''2024-05-02T10:00:00Z'' (JBool False) JNull]),
      two_listings)"
  by (simp add: listings_request_def API_URL_backend bool_string_def)
     (simp add: backend_def store_unseen_two)

lemma backend_list_all:
  "http (backend []) (listings_request (backend []) token False) two_listings =
     (Resolved (JArr two_listings), two_listings)"
  by (simp add: listings_request_def API_URL_backend bool_string_def)
     (simp add: backend_def)

lemma scrape_then_fetch:
  assumes "fst (http e (scrape_request e token) w) = Resolved (JObj kvs)"
  shows "fst (scrapeListings e token (st, w)) =
           (fst (fetchListings e token
              (st\<lparr>scraping := True,
                  stats := \<lparr> total_count = js_prop (JObj kvs) ''total_listings'',
                             unseen_count = js_prop (JObj kvs) ''unseen_listings'' \<rparr>\<rparr>,
               snd (http e (scrape_request e token) w))))\<lparr>scraping := False\<rparr>"
  using assms
  by (cases "http e (scrape_request e token) w")
     (simp add: scrapeListings_def Let_def member_def case_prod_beta)

section \<open>Claims\<close>

text \<open>
  C9. A failing fetchListings leaves the displayed data alone. Whenever the token is
  missing, axios rejects (network error, non-2xx answer), the body is not an array, or
  the validation throws on an element, the resulting state is the previous one with
  only \<open>error\<close> set to a message and \<open>loading\<close> set to false: \<open>listings\<close>,
  \<open>stats\<close> and every other field keep their values.
\<close>

theorem fetchListings_failure_keeps_display:
  assumes "token_missing token
           \<or> (\<exists>t. fst (http e (listings_request e token (showOnlyUnseen st)) w) = Rejected t)
           \<or> (\<exists>d. fst (http e (listings_request e token (showOnlyUnseen st)) w) = Resolved d
                  \<and> (\<forall>xs. d \<noteq> JArr xs))
           \<or> (\<exists>xs t. fst (http e (listings_request e token (showOnlyUnseen st)) w)
                        = Resolved (JArr xs)
                    \<and> filter_res validListing xs = Inl t)"
  shows "\<exists>m. fst (fetchListings e token (st, w)) = st\<lparr>error := Some m, loading := False\<rparr>"
proof (cases "token_missing token")
  case True
  then show ?thesis
    by (intro exI[of _ "''Authentication token is missing''"]) (simp add: fetchListings_no_token)
next
  case False
  let ?res = "fst (http e (listings_request e token (showOnlyUnseen st)) w)"
  from assms False consider
      (rej) t where "?res = Rejected t"
    | (bad) d where "?res = Resolved d" "\<forall>xs. d \<noteq> JArr xs"
    | (thr) xs t where "?res = Resolved (JArr xs)" "filter_res validListing xs = Inl t"
    by blast
  then show ?thesis
  proof cases
    case rej
    with False show ?thesis
      by (intro exI[of _ "fetch_error_message e t"])
         (simp add: fetchListings_token fetch_try_Rejected)
  next
    case bad
    with False show ?thesis
      by (intro exI[of _ "''Invalid response format from server''"])
         (simp add: fetchListings_token fetch_try_not_array)
  next
    case thr
    with False show ?thesis
      by (intro exI[of _ "fetch_error_message e t"])
         (simp add: fetchListings_token fetch_try_throwing)
  qed
qed

theorem fetchListings_failure_keeps_display_witness:
  "\<exists>m. fst (fetchListings scripted (Some ''tok'')
              (initial\<lparr>listings := [sample_listing ''7'' ''2024-05-01T10:00:00Z'' (JBool False) JNull],
                       loading := False\<rparr>,
               [Resolved (JObj [(''detail'', JStr ''oops'')])]))
       = initial\<lparr>listings := [sample_listing ''7'' ''2024-05-01T10:00:00Z'' (JBool False) JNull],
                 loading := False\<rparr>\<lparr>error := Some m, loading := False\<rparr>"
  by (rule fetchListings_failure_keeps_display) (simp add: scripted_http_Cons)

text \<open>
  C2. After a successful fetch (the answer is an array and no element makes the validation
  throw) the displayed stats are computed from the retained records: \<open>listings\<close> is the
  array filtered by the validation, \<open>stats.total\<close> is its length and \<open>stats.unseen\<close>
  is the number of retained listings for which \<^verbatim>\<open>!l.seen\<close> holds. Where \<open>seen\<close> is a
  boolean, as the interface \<^verbatim>\<open>Listing\<close> declares, or absent, that is the number of
  retained listings whose \<open>seen\<close> is not \<open>true\<close>.
\<close>

theorem fetch_stats_derived_from_listings:
  assumes "\<not> token_missing token"
    and "fst (http e (listings_request e token (showOnlyUnseen st)) w) = Resolved (JArr xs)"
    and "JNull \<notin> set xs"
    and "st' = fst (fetchListings e token (st, w))"
  shows "listings st' = filter (\<lambda>l. validListing l = Inr True) xs
       \<and> total_count (stats st') = JNum (real (length (listings st')))
       \<and> unseen_count (stats st') =
           JNum (real (length (filter (\<lambda>l. \<not> ToBoolean (js_prop l ''seen'')) (listings st'))))
       \<and> ((\<forall>l\<in>set (listings st'). typeof (js_prop l ''seen'') = ''boolean''
                                    \<or> typeof (js_prop l ''seen'') = ''undefined'')
          \<longrightarrow> unseen_count (stats st') =
                JNum (real (length (filter (\<lambda>l. js_prop l ''seen'' \<noteq> JBool True) (listings st')))))"
proof -
  have st': "st' = st\<lparr>listings := filter (\<lambda>l. validListing l = Inr True) xs,
              loading := False,
              error := None,
              stats := \<lparr> total_count =
                           JNum (real (length (filter (\<lambda>l. validListing l = Inr True) xs))),
                         unseen_count =
                           JNum (real (length (filter (\<lambda>l. \<not> ToBoolean (js_prop l ''seen''))
                                   (filter (\<lambda>l. validListing l = Inr True) xs)))) \<rparr>,
              retryCount := 0\<rparr>"
    using assms by (simp add: fetchListings_success)
  have typed: "filter (\<lambda>l. \<not> ToBoolean (js_prop l ''seen'')) ys
             = filter (\<lambda>l. js_prop l ''seen'' \<noteq> JBool True) ys"
    if "\<forall>l\<in>set ys. typeof (js_prop l ''seen'') = ''boolean''
                     \<or> typeof (js_prop l ''seen'') = ''undefined''" for ys
    using that by (intro filter_cong refl) (simp add: not_truthy_boolean)
  show ?thesis
    using typed [of "listings st'"] by (simp add: st')
qed


theorem fetch_stats_derived_from_listings_witness:
  "listings (fst (fetchListings scripted (Some ''tok'')
      (initial, [Resolved (JArr [sample_listing ''1'' ''2024-05-01T10:00:00Z'' (JBool False) JNull,
                                 sample_listing ''2'' ''2024-05-02T10:00:00Z'' (JBool True) JNull,
                                 JNum 5])])))
     = [sample_listing ''1'' ''2024-05-01T10:00:00Z'' (JBool False) JNull,
        sample_listing ''2'' ''2024-05-02T10:00:00Z'' (JBool True) JNull]
   \<and> total_count (stats (fst (fetchListings scripted (Some ''tok'')
      (initial, [Resolved (JArr [sample_listing ''1'' ''2024-05-01T10:00:00Z'' (JBool False) JNull,
                                 sample_listing ''2'' ''2024-05-02T10:00:00Z'' (JBool True) JNull,
                                 JNum 5])])))) = JNum 2
   \<and> unseen_count (stats (fst (fetchListings scripted (Some ''tok'')
      (initial, [Resolved (JArr [sample_listing ''1'' ''2024-05-01T10:00:00Z'' (JBool False) JNull,
                                 sample_listing ''2'' ''2024-05-02T10:00:00Z'' (JBool True) JNull,
                                 JNum 5])])))) = JNum 1"
proof -
  let ?xs = "[sample_listing ''1'' ''2024-05-01T10:00:00Z'' (JBool False) JNull,
              sample_listing ''2'' ''2024-05-02T10:00:00Z'' (JBool True) JNull,
              JNum 5]"
  have h2: "fst (http scripted (listings_request scripted (Some ''tok'') (showOnlyUnseen initial))
                   [Resolved (JArr ?xs)]) = Resolved (JArr ?xs)"
    by (simp add: scripted_http_Cons)
  have h3: "JNull \<notin> set ?xs"
    by (simp add: sample_listing_def)
  have v: "filter (\<lambda>l. validListing l = Inr True) ?xs
            = [sample_listing ''1'' ''2024-05-01T10:00:00Z'' (JBool False) JNull,
               sample_listing ''2'' ''2024-05-02T10:00:00Z'' (JBool True) JNull]"
    by (simp add: sample_listing_valid validListing_not_null)
  note r = fetch_stats_derived_from_listings [OF token_present h2 h3 refl, unfolded v]
  note l = r [THEN conjunct1]
  have t: "total_count (stats (fst (fetchListings scripted (Some ''tok'')
             (initial, [Resolved (JArr ?xs)])))) = JNum 2"
    using r [THEN conjunct2, THEN conjunct1] by (simp add: l)
  have u: "unseen_count (stats (fst (fetchListings scripted (Some ''tok'')
             (initial, [Resolved (JArr ?xs)])))) = JNum 1"
    using r [THEN conjunct2, THEN conjunct2, THEN conjunct1]
    by (simp add: l sample_listing_props)
  show ?thesis
    using l t u by (intro conjI)
qed

text \<open>
  C3, as stated: every listing the validation retains has a non-empty link. It fails:
  a listing whose \<open>link\<close> is the empty string passes the validation and is stored in
  \<open>listings\<close>.
\<close>

theorem empty_link_retained:
  "listings (fst (fetchListings scripted (Some ''tok'')
                    (initial, [Resolved (JArr [empty_link_listing])])))
     = [empty_link_listing]
   \<and> js_prop empty_link_listing ''link'' = JStr []"
proof -
  have v: "validListing empty_link_listing = Inr True"
    by (simp add: validListing_True_iff) (simp add: empty_link_listing_def)
  have n: "JNull \<notin> set [empty_link_listing]"
    by (simp add: empty_link_listing_def)
  have "listings (fst (fetchListings scripted (Some ''tok'')
                    (initial, [Resolved (JArr [empty_link_listing])])))
          = [empty_link_listing]"
    using n by (simp add: fetchListings_success token_present scripted_http_Cons v)
  moreover have "js_prop empty_link_listing ''link'' = JStr []"
    by (simp add: empty_link_listing_def)
  ultimately show ?thesis by (rule conjI)
qed

text \<open>
  C3, amended: the validation checks the type of \<open>link\<close> only. Every listing retained by
  a successful fetch has a \<open>link\<close> that is a string (possibly empty).
\<close>

theorem retained_link_is_string:
  assumes "\<not> token_missing token"
    and "fst (http e (listings_request e token (showOnlyUnseen st)) w) = Resolved (JArr xs)"
    and "JNull \<notin> set xs"
    and "l \<in> set (listings (fst (fetchListings e token (st, w))))"
  shows "\<exists>s. js_prop l ''link'' = JStr s"
proof -
  from assms have "l \<in> set (filter (\<lambda>l. validListing l = Inr True) xs)"
    by (simp add: fetchListings_success)
  then have "validListing l = Inr True" by simp
  then show ?thesis by (simp add: validListing_True_iff typeof_string_iff)
qed

theorem retained_link_is_string_witness:
  "\<exists>s. js_prop (sample_listing ''1'' ''2024-05-01T10:00:00Z'' (JBool False) JNull) ''link'' = JStr s"
proof -
  let ?l = "sample_listing ''1'' ''2024-05-01T10:00:00Z'' (JBool False) JNull"
  have h2: "fst (http scripted (listings_request scripted (Some ''tok'') (showOnlyUnseen initial))
                   [Resolved (JArr [?l])]) = Resolved (JArr [?l])"
    by (simp add: scripted_http_Cons)
  have h3: "JNull \<notin> set [?l]"
    by (simp add: sample_listing_def)
  have h4: "?l \<in> set (listings (fst (fetchListings scripted (Some ''tok'')
                                        (initial, [Resolved (JArr [?l])]))))"
    using h3 by (simp add: fetchListings_success token_present scripted_http_Cons
                    sample_listing_valid)
  show ?thesis
    by (rule retained_link_is_string [OF token_present h2 h3 h4])
qed

text \<open>
  C6. fetchListings issues no request when the token is missing and otherwise exactly
  one, a GET of \<^verbatim>\<open>/listings?include_seen=\<close> followed by the negation of
  \<open>showOnlyUnseen\<close>: \<^verbatim>\<open>false\<close> when the toggle is on, \<^verbatim>\<open>true\<close> when it is off.
\<close>

theorem fetchListings_include_seen:
  "snd (snd (fetchListings (traced e) token (st, (w, [])))) =
     (if token_missing token then [] else [listings_request e token (showOnlyUnseen st)])
   \<and> verb (listings_request e token (showOnlyUnseen st)) = GET
   \<and> url (listings_request e token (showOnlyUnseen st)) =
       API_URL e @ ''/listings?include_seen='' @ (if showOnlyUnseen st then ''false'' else ''true'')"
  by (simp add: fetchListings_no_token fetchListings_token listings_request_traced http_traced)
     (simp add: listings_request_def bool_string_def)

theorem fetchListings_include_seen_witness:
  "snd (snd (fetchListings (traced scripted) (Some ''tok'')
               (initial\<lparr>showOnlyUnseen := True\<rparr>, ([], []))))
     = [listings_request scripted (Some ''tok'') True]
   \<and> url (listings_request scripted (Some ''tok'') True)
     = ''http://localhost:8000/listings?include_seen=false''"
  using fetchListings_include_seen [of scripted "Some ''tok''" "initial\<lparr>showOnlyUnseen := True\<rparr>" "[]"]
  by (simp add: token_present) (simp add: API_URL_def scripted_def)

text \<open>
  C4. For validated listings (what fetchListings stores) whose \<open>scraped_at\<close> all parse
  to valid dates, filteredAndSortedListings returns, for every search query, the
  listings that match the query arranged most recent first: each listing shown was
  scraped no earlier than every listing shown after it.
\<close>

theorem shown_most_recent_first:
  assumes "\<forall>l\<in>set ls. validListing l = Inr True"
    and "\<forall>l\<in>set ls. getTime e (js_prop l ''scraped_at'') \<noteq> None"
  shows "\<exists>shown. filteredAndSortedListings e ls q = Inr shown
               \<and> sorted_wrt (newer_or_equal e) shown
               \<and> mset shown = mset (filter (\<lambda>l. matchesSearch q l = Inr True) ls)"
proof -
  let ?f = "filter (\<lambda>l. matchesSearch q l = Inr True) ls"
  have "\<forall>l\<in>set ?f. scraped_time e l \<noteq> None"
    using assms(2) by (simp add: scraped_time_def)
  then have "sorted_wrt (newer_or_equal e) (sort_by (compare_scraped e) ?f)"
    by (rule sort_by_sorted)
  then show ?thesis
    using assms(1) by (simp add: filtered_valid mset_sort_by)
qed

theorem shown_most_recent_first_witness:
  "filteredAndSortedListings scripted
     [sample_listing ''1'' ''2024-05-01T10:00:00Z'' (JBool False) JNull,
      sample_listing ''3'' ''2024-05-03T10:00:00Z'' (JBool False) JNull,
      sample_listing ''2'' ''2024-05-02T10:00:00Z'' (JBool True) JNull] ''bike''
   = Inr [sample_listing ''3'' ''2024-05-03T10:00:00Z'' (JBool False) JNull,
          sample_listing ''2'' ''2024-05-02T10:00:00Z'' (JBool True) JNull,
          sample_listing ''1'' ''2024-05-01T10:00:00Z'' (JBool False) JNull]
   \<and> sorted_wrt (newer_or_equal scripted)
         [sample_listing ''3'' ''2024-05-03T10:00:00Z'' (JBool False) JNull,
          sample_listing ''2'' ''2024-05-02T10:00:00Z'' (JBool True) JNull,
          sample_listing ''1'' ''2024-05-01T10:00:00Z'' (JBool False) JNull]"
proof -
  let ?ls = "[sample_listing ''1'' ''2024-05-01T10:00:00Z'' (JBool False) JNull,
              sample_listing ''3'' ''2024-05-03T10:00:00Z'' (JBool False) JNull,
              sample_listing ''2'' ''2024-05-02T10:00:00Z'' (JBool True) JNull]"
  have h1: "\<forall>l\<in>set ?ls. validListing l = Inr True"
    by (simp add: sample_listing_valid)
  have h2: "\<forall>l\<in>set ?ls. getTime scripted (js_prop l ''scraped_at'') \<noteq> None"
    by (simp add: sample_listing_props scripted_getTime)
  note m = sample_listing_matches
  have ev: "filteredAndSortedListings scripted ?ls ''bike''
            = Inr [sample_listing ''3'' ''2024-05-03T10:00:00Z'' (JBool False) JNull,
                   sample_listing ''2'' ''2024-05-02T10:00:00Z'' (JBool True) JNull,
                   sample_listing ''1'' ''2024-05-01T10:00:00Z'' (JBool False) JNull]"
    by (simp add: filtered_valid [OF h1] m sort_by_def compare_scraped_def
          sample_listing_props scripted_getTime)
  from shown_most_recent_first [OF h1 h2, of "''bike''"]
  obtain shown where "filteredAndSortedListings scripted ?ls ''bike'' = Inr shown"
    and "sorted_wrt (newer_or_equal scripted) shown" by blast
  with ev show ?thesis by simp
qed

text \<open>
  C10. With the empty search query every validated listing matches (its title, in lower
  case, contains the empty string), so filteredAndSortedListings returns the very
  elements of \<open>listings\<close>, each as often as it occurs there, in the order of the sort.
\<close>

theorem empty_query_keeps_all:
  assumes "\<forall>l\<in>set ls. validListing l = Inr True"
  shows "(\<forall>l\<in>set ls. matchesSearch [] l = Inr True)
       \<and> (\<exists>shown. filteredAndSortedListings e ls [] = Inr shown \<and> mset shown = mset ls)"
proof -
  have m: "\<forall>l\<in>set ls. matchesSearch [] l = Inr True"
    using assms by (simp add: matchesSearch_empty)
  then have "filter (\<lambda>l. matchesSearch [] l = Inr True) ls = ls"
    by (simp add: filter_id_conv)
  then show ?thesis
    using assms m by (simp add: filtered_valid mset_sort_by)
qed


theorem empty_query_keeps_all_witness:
  "\<exists>shown. filteredAndSortedListings scripted
       [sample_listing ''1'' ''2024-05-01T10:00:00Z'' (JBool False) JNull,
        sample_listing ''3'' ''2024-05-03T10:00:00Z'' (JBool False) JNull] [] = Inr shown
     \<and> mset shown = {# sample_listing ''1'' ''2024-05-01T10:00:00Z'' (JBool False) JNull,
                         sample_listing ''3'' ''2024-05-03T10:00:00Z'' (JBool False) JNull #}"
proof -
  let ?ls = "[sample_listing ''1'' ''2024-05-01T10:00:00Z'' (JBool False) JNull,
              sample_listing ''3'' ''2024-05-03T10:00:00Z'' (JBool False) JNull]"
  have h1: "\<forall>l\<in>set ?ls. validListing l = Inr True"
    by (simp add: sample_listing_valid)
  show ?thesis
    using empty_query_keeps_all [OF h1, of scripted] by simp
qed

text \<open>
  C5, as stated: after a successful answer that is the empty array, \<open>error\<close> stays null
  and the message \<^verbatim>\<open>No listings found\<close> is shown. The second part fails when a search
  query is typed in: the message shown is then \<^verbatim>\<open>No listings match your search\<close>.
\<close>

theorem empty_result_with_query_counterexample:
  "error (fst (fetchListings scripted (Some ''tok'')
                 (initial\<lparr>searchQuery := ''sofa''\<rparr>, [Resolved (JArr [])]))) = None
   \<and> area_of (render scripted (Some ''tok'')
        (fst (fetchListings scripted (Some ''tok'')
                 (initial\<lparr>searchQuery := ''sofa''\<rparr>, [Resolved (JArr [])]))))
     = Some (NoListings ''No listings match your search'')"
  by (simp add: fetchListings_empty token_present scripted_http_Cons render_def
        filteredAndSorted_Nil area_of_def)

text \<open>
  C5, amended: an empty successful result is never shown as a failure. After a
  successful answer that is the empty array, \<open>error\<close> is null and the empty-state message
  is shown in place of the grid: \<^verbatim>\<open>No listings found\<close> when the search query is empty,
  \<^verbatim>\<open>No listings match your search\<close> otherwise. After every failed fetch (missing token,
  rejected request, body that is not an array, validation that throws) and after every
  rejected scrape request, \<open>error\<close> holds a non-empty message.
\<close>

theorem empty_result_is_not_failure:
  "(\<not> token_missing token
     \<and> fst (http e (listings_request e token (showOnlyUnseen st)) w) = Resolved (JArr [])
    \<longrightarrow> error (fst (fetchListings e token (st, w))) = None
        \<and> area_of (render e token (fst (fetchListings e token (st, w))))
          = Some (NoListings (if searchQuery st = [] then ''No listings found''
                              else ''No listings match your search'')))
   \<and> (token_missing token
       \<or> (\<exists>t. fst (http e (listings_request e token (showOnlyUnseen st)) w) = Rejected t)
       \<or> (\<exists>d. fst (http e (listings_request e token (showOnlyUnseen st)) w) = Resolved d
              \<and> (\<forall>xs. d \<noteq> JArr xs))
       \<or> (\<exists>xs t. fst (http e (listings_request e token (showOnlyUnseen st)) w)
                    = Resolved (JArr xs)
                \<and> filter_res validListing xs = Inl t)
      \<longrightarrow> (\<exists>m. error (fst (fetchListings e token (st, w))) = Some m \<and> m \<noteq> []))
   \<and> ((\<exists>t. fst (http e (scrape_request e token) w) = Rejected t)
      \<longrightarrow> (\<exists>m. error (fst (scrapeListings e token (st, w))) = Some m \<and> m \<noteq> []))"
proof (intro conjI impI)
  assume a: "\<not> token_missing token
     \<and> fst (http e (listings_request e token (showOnlyUnseen st)) w) = Resolved (JArr [])"
  then show "error (fst (fetchListings e token (st, w))) = None"
    by (simp add: fetchListings_empty)
  from a show "area_of (render e token (fst (fetchListings e token (st, w))))
          = Some (NoListings (if searchQuery st = [] then ''No listings found''
                              else ''No listings match your search''))"
    by (simp add: fetchListings_empty render_def filteredAndSorted_Nil area_of_def)
next
  assume "token_missing token
       \<or> (\<exists>t. fst (http e (listings_request e token (showOnlyUnseen st)) w) = Rejected t)
       \<or> (\<exists>d. fst (http e (listings_request e token (showOnlyUnseen st)) w) = Resolved d
              \<and> (\<forall>xs. d \<noteq> JArr xs))
       \<or> (\<exists>xs t. fst (http e (listings_request e token (showOnlyUnseen st)) w)
                    = Resolved (JArr xs)
                \<and> filter_res validListing xs = Inl t)"
  then consider (tok) "token_missing token"
    | (rej) t where "\<not> token_missing token"
        "fst (http e (listings_request e token (showOnlyUnseen st)) w) = Rejected t"
    | (bad) d where "\<not> token_missing token"
        "fst (http e (listings_request e token (showOnlyUnseen st)) w) = Resolved d"
        "\<forall>xs. d \<noteq> JArr xs"
    | (thr) xs t where "\<not> token_missing token"
        "fst (http e (listings_request e token (showOnlyUnseen st)) w) = Resolved (JArr xs)"
        "filter_res validListing xs = Inl t"
    by blast
  then show "\<exists>m. error (fst (fetchListings e token (st, w))) = Some m \<and> m \<noteq> []"
  proof cases
    case tok
    then show ?thesis by (simp add: fetchListings_no_token)
  next
    case rej
    then show ?thesis
      by (simp add: fetchListings_token fetch_try_Rejected fetch_error_message_nonempty)
  next
    case bad
    then show ?thesis by (simp add: fetchListings_token fetch_try_not_array)
  next
    case thr
    then show ?thesis
      by (simp add: fetchListings_token fetch_try_throwing fetch_error_message_nonempty)
  qed
next
  assume "\<exists>t. fst (http e (scrape_request e token) w) = Rejected t"
  then show "\<exists>m. error (fst (scrapeListings e token (st, w))) = Some m \<and> m \<noteq> []"
    by (auto simp: scrapeListings_rejected action_error_message_nonempty)
qed

theorem empty_result_is_not_failure_witness:
  "error (fst (fetchListings scripted (Some ''tok'') (initial, [Resolved (JArr [])]))) = None
   \<and> area_of (render scripted (Some ''tok'')
                (fst (fetchListings scripted (Some ''tok'') (initial, [Resolved (JArr [])]))))
     = Some (NoListings ''No listings found'')
   \<and> (\<exists>m. error (fst (fetchListings scripted (Some ''tok'') (initial, []))) = Some m \<and> m \<noteq> [])
   \<and> (\<exists>m. error (fst (scrapeListings scripted (Some ''tok'') (initial, []))) = Some m \<and> m \<noteq> [])"
proof -
  have q: "searchQuery initial = []" by (simp add: initial_def)
  show ?thesis
    using empty_result_is_not_failure [of "Some ''tok''" scripted initial "[Resolved (JArr [])]"]
      empty_result_is_not_failure [of "Some ''tok''" scripted initial "[]"]
    by (simp add: token_present scripted_http_Cons scripted_http_Nil q)
qed

text \<open>
  C8. With validated listings the render never throws; the cards of the grid are the
  cards of the listings shown; and the card of a listing whose \<open>image_url\<close> is null has
  the placeholder \<^verbatim>\<open>No Image\<close> and no image element: the null value is only tested for
  truthiness, never read as an object.
\<close>

theorem null_image_renders_placeholder:
  assumes "listings_valid st"
  shows "(\<exists>v. render e token st = Inr v)
       \<and> (\<forall>cards. area_of (render e token st) = Some (Grid cards) \<longrightarrow>
             (\<exists>shown. filteredAndSortedListings e (listings st) (searchQuery st) = Inr shown
                    \<and> cards = map (listing_card e) shown))
       \<and> (\<forall>l. js_prop l ''image_url'' = JNull \<longrightarrow> image (listing_card e l) = NoImage)"
proof (intro conjI allI impI)
  show "\<exists>v. render e token st = Inr v"
    using assms by (simp add: render_valid)
next
  fix cards
  assume "area_of (render e token st) = Some (Grid cards)"
  then show "\<exists>shown. filteredAndSortedListings e (listings st) (searchQuery st) = Inr shown
                    \<and> cards = map (listing_card e) shown"
    using assms
    by (auto simp: render_valid area_of_def filtered_valid listings_valid_def Let_def
             split: if_splits)
next
  fix l
  assume "js_prop l ''image_url'' = JNull"
  then show "image (listing_card e l) = NoImage"
    by (simp add: listing_card_def)
qed

theorem null_image_renders_placeholder_witness:
  "(\<exists>v. render scripted (Some ''tok'') loaded = Inr v)
   \<and> area_of (render scripted (Some ''tok'') loaded)
     = Some (Grid [listing_card scripted
                     (sample_listing ''1'' ''2024-05-01T10:00:00Z'' (JBool False) JNull)])
   \<and> image (listing_card scripted
               (sample_listing ''1'' ''2024-05-01T10:00:00Z'' (JBool False) JNull)) = NoImage"
  using null_image_renders_placeholder [OF loaded_valid, of scripted "Some ''tok''"]
  by (simp add: render_loaded area_of_def sample_listing_props)

text \<open>
  C7. The button \<^verbatim>\<open>Mark as Seen\<close> is rendered exactly for the listings whose \<open>seen\<close> is
  falsy, which for a boolean \<open>seen\<close> means \<open>seen = false\<close>. A click on the button of a
  card issues first a POST to \<^verbatim>\<open>/listings/mark-seen\<close> whose body is the one-element array
  holding the id string of that card's listing, an unseen listing of the state. Every
  request issued by any event is a GET of the listings, a POST to \<^verbatim>\<open>/scrape\<close>, a POST
  to the export, or such a mark-seen request for an unseen listing: no request asks
  for \<open>seen\<close> to become false.
\<close>

theorem mark_seen_only_forward:
  "(markSeenButton (listing_card e l) \<noteq> None) = (\<not> ToBoolean (js_prop l ''seen''))
   \<and> (typeof (js_prop l ''seen'') = ''boolean'' \<longrightarrow>
        (markSeenButton (listing_card e l) \<noteq> None) = (js_prop l ''seen'' = JBool False))
   \<and> (listings_valid st \<and> render e token st = Inr (Page p) \<and> area p = Grid cards
        \<and> i < length cards \<and> markSeenButton (cards ! i) = Some ids \<longrightarrow>
        (\<exists>ident. ids = [JStr ident]
           \<and> (\<exists>k\<in>set (listings st). js_prop k ''id'' = JStr ident
                                      \<and> \<not> ToBoolean (js_prop k ''seen''))
           \<and> requests_of e token (ClickMarkSeen i) (st, w) \<noteq> []
           \<and> hd (requests_of e token (ClickMarkSeen i) (st, w)) =
               \<lparr> verb = POST, url = API_URL e @ ''/listings/mark-seen'',
                 body = JArr [JStr ident],
                 headers = [(''Authorization'', bearer token)],
                 withCredentials = False, timeout_ms = None \<rparr>))
   \<and> (r \<in> set (requests_of e token ev (st, w)) \<longrightarrow> dashboard_request e token st r)"
proof (intro conjI impI)
  show "(markSeenButton (listing_card e l) \<noteq> None) = (\<not> ToBoolean (js_prop l ''seen''))"
    by (simp add: card_button)
next
  assume "typeof (js_prop l ''seen'') = ''boolean''"
  then show "(markSeenButton (listing_card e l) \<noteq> None) = (js_prop l ''seen'' = JBool False)"
    by (cases "js_prop l ''seen''") (simp_all add: card_button)
next
  assume a: "listings_valid st \<and> render e token st = Inr (Page p) \<and> area p = Grid cards
        \<and> i < length cards \<and> markSeenButton (cards ! i) = Some ids"
  then obtain shown where sub: "set shown \<subseteq> set (listings st)"
    and cards: "cards = map (listing_card e) shown"
    using render_Grid by blast
  from a cards have i: "i < length shown" by simp
  with sub have mem: "shown ! i \<in> set (listings st)" by (auto simp: subset_iff)
  with a have "validListing (shown ! i) = Inr True" by (simp add: listings_valid_def)
  then obtain ident where ident: "js_prop (shown ! i) ''id'' = JStr ident"
    by (auto simp: validListing_True_iff typeof_string_iff)
  from a cards i have unseen: "\<not> ToBoolean (js_prop (shown ! i) ''seen'')"
    and ids: "ids = [JStr ident]"
    by (auto simp: card_button ident split: if_splits)
  from a cards i ids
  have "requests_of e token (ClickMarkSeen i) (st, w) =
          mark_seen_request e token [JStr ident] #
            (case fst (http e (mark_seen_request e token [JStr ident]) w) of
               Rejected t \<Rightarrow> []
             | Resolved d \<Rightarrow> if token_missing token then []
                             else [listings_request e token (showOnlyUnseen st)])"
    by (simp add: requests_of_def dispatch_def render_traced page_event_def mark_seen_trace)
  then have "requests_of e token (ClickMarkSeen i) (st, w) \<noteq> []"
    and "hd (requests_of e token (ClickMarkSeen i) (st, w)) =
               \<lparr> verb = POST, url = API_URL e @ ''/listings/mark-seen'',
                 body = JArr [JStr ident],
                 headers = [(''Authorization'', bearer token)],
                 withCredentials = False, timeout_ms = None \<rparr>"
    by (simp_all add: mark_seen_request_def)
  with ids mem ident unseen
  show "\<exists>ident. ids = [JStr ident]
           \<and> (\<exists>k\<in>set (listings st). js_prop k ''id'' = JStr ident
                                      \<and> \<not> ToBoolean (js_prop k ''seen''))
           \<and> requests_of e token (ClickMarkSeen i) (st, w) \<noteq> []
           \<and> hd (requests_of e token (ClickMarkSeen i) (st, w)) =
               \<lparr> verb = POST, url = API_URL e @ ''/listings/mark-seen'',
                 body = JArr [JStr ident],
                 headers = [(''Authorization'', bearer token)],
                 withCredentials = False, timeout_ms = None \<rparr>"
    by blast
next
  assume "r \<in> set (requests_of e token ev (st, w))"
  then show "dashboard_request e token st r" by (rule requests_of_dashboard)
qed

theorem mark_seen_only_forward_witness:
  "requests_of scripted (Some ''tok'') (ClickMarkSeen 0) (loaded, []) \<noteq> []
   \<and> hd (requests_of scripted (Some ''tok'') (ClickMarkSeen 0) (loaded, [])) =
       \<lparr> verb = POST, url = ''http://localhost:8000/listings/mark-seen'',
         body = JArr [JStr ''1''],
         headers = [(''Authorization'', ''Bearer tok'')],
         withCredentials = False, timeout_ms = None \<rparr>
   \<and> dashboard_request scripted (Some ''tok'') loaded
        (hd (requests_of scripted (Some ''tok'') (ClickMarkSeen 0) (loaded, [])))"
proof -
  let ?l = "sample_listing ''1'' ''2024-05-01T10:00:00Z'' (JBool False) JNull"
  let ?p = "\<lparr> scrapeDisabled = False, scrapeLabel = ''Scrape New Listings'',
                 totalShown = JNum 0, unseenShown = JNum 0, searchValue = [],
                 unseenChecked = False, errorBanner = None,
                 area = Grid [listing_card scripted ?l] \<rparr>"
  have h: "listings_valid loaded \<and> render scripted (Some ''tok'') loaded = Inr (Page ?p)
           \<and> area ?p = Grid [listing_card scripted ?l]
           \<and> 0 < length [listing_card scripted ?l]
           \<and> markSeenButton ([listing_card scripted ?l] ! 0) = Some [JStr ''1'']"
    by (simp add: loaded_valid render_loaded card_button sample_listing_props)
  note t = mark_seen_only_forward [of scripted ?l loaded "Some ''tok''" ?p
              "[listing_card scripted ?l]" 0 "[JStr ''1'']" "[]"
              "hd (requests_of scripted (Some ''tok'') (ClickMarkSeen 0) (loaded, []))"
              "ClickMarkSeen 0"]
  from t h have b: "\<exists>ident. [JStr ''1''] = [JStr ident]
           \<and> (\<exists>k\<in>set (listings loaded). js_prop k ''id'' = JStr ident
                                      \<and> \<not> ToBoolean (js_prop k ''seen''))
           \<and> requests_of scripted (Some ''tok'') (ClickMarkSeen 0) (loaded, []) \<noteq> []
           \<and> hd (requests_of scripted (Some ''tok'') (ClickMarkSeen 0) (loaded, [])) =
               \<lparr> verb = POST, url = API_URL scripted @ ''/listings/mark-seen'',
                 body = JArr [JStr ident],
                 headers = [(''Authorization'', bearer (Some ''tok''))],
                 withCredentials = False, timeout_ms = None \<rparr>"
    by blast
  then have ne: "requests_of scripted (Some ''tok'') (ClickMarkSeen 0) (loaded, []) \<noteq> []"
    and hd: "hd (requests_of scripted (Some ''tok'') (ClickMarkSeen 0) (loaded, [])) =
       \<lparr> verb = POST, url = ''http://localhost:8000/listings/mark-seen'',
         body = JArr [JStr ''1''],
         headers = [(''Authorization'', ''Bearer tok'')],
         withCredentials = False, timeout_ms = None \<rparr>"
    by (auto simp: API_URL_scripted bearer_tok)
  from ne have "hd (requests_of scripted (Some ''tok'') (ClickMarkSeen 0) (loaded, []))
                  \<in> set (requests_of scripted (Some ''tok'') (ClickMarkSeen 0) (loaded, []))"
    by simp
  with t have "dashboard_request scripted (Some ''tok'') loaded
        (hd (requests_of scripted (Some ''tok'') (ClickMarkSeen 0) (loaded, [])))"
    by blast
  with ne hd show ?thesis by blast
qed

text \<open>
  C1. The store holds two listings, one seen and one unseen, and the scrape finds
  nothing new. \<^verbatim>\<open>POST scrape\<close> answers \<^verbatim>\<open>{total_listings: 2, unseen_listings: 1}\<close>.
  scrapeListings puts these numbers into \<open>stats\<close> and then awaits fetchListings, which
  overwrites them with the counts of the list it fetched. With the unseen-only toggle
  on, that list holds the unseen listing alone, and the scrape ends without error
  showing total 1, unseen 1. With the toggle off the same run ends showing total 2,
  unseen 1, as the claim says.
\<close>

theorem scrape_stats_overwritten_when_unseen_only:
  "fst (http (backend []) (scrape_request (backend []) (Some ''tok'')) two_listings)
     = Resolved (JObj [(''total_listings'', JNum 2), (''unseen_listings'', JNum 1)])
   \<and> error (fst (scrapeListings (backend []) (Some ''tok'')
                   (initial\<lparr>showOnlyUnseen := True\<rparr>, two_listings))) = None
   \<and> stats (fst (scrapeListings (backend []) (Some ''tok'')
                   (initial\<lparr>showOnlyUnseen := True\<rparr>, two_listings)))
     = \<lparr> total_count = JNum 1, unseen_count = JNum 1 \<rparr>
   \<and> stats (fst (scrapeListings (backend []) (Some ''tok'')
                   (initial\<lparr>showOnlyUnseen := False\<rparr>, two_listings)))
     = \<lparr> total_count = JNum 2, unseen_count = JNum 1 \<rparr>"
proof -
  let ?l2 = "sample_listing ''2'' ''2024-05-02T10:00:00Z'' (JBool False) JNull"
  have on: "fst (fetchListings (backend []) (Some ''tok'') (st, two_listings)) =
             st\<lparr>listings := [?l2], loading := False, error := None,
                stats := \<lparr> total_count = JNum 1, unseen_count = JNum 1 \<rparr>, retryCount := 0\<rparr>"
    if "showOnlyUnseen st" for st
  proof -
    have n: "JNull \<notin> set [?l2]" by (simp add: sample_listing_def)
    have h: "fst (http (backend []) (listings_request (backend []) (Some ''tok'')
                   (showOnlyUnseen st)) two_listings) = Resolved (JArr [?l2])"
      using that by (simp add: backend_list_unseen)
    show ?thesis
      using fetchListings_success [OF token_present h n]
      by (simp add: sample_listing_valid sample_listing_props)
  qed
  have off: "fst (fetchListings (backend []) (Some ''tok'') (st, two_listings)) =
             st\<lparr>listings := two_listings, loading := False, error := None,
                stats := \<lparr> total_count = JNum 2, unseen_count = JNum 1 \<rparr>, retryCount := 0\<rparr>"
    if "\<not> showOnlyUnseen st" for st
  proof -
    have n: "JNull \<notin> set two_listings" by (simp add: two_listings_def sample_listing_def)
    have h: "fst (http (backend []) (listings_request (backend []) (Some ''tok'')
                   (showOnlyUnseen st)) two_listings) = Resolved (JArr two_listings)"
      using that by (simp add: backend_list_all)
    have v: "filter (\<lambda>l. validListing l = Inr True) two_listings = two_listings"
      by (simp add: two_listings_def sample_listing_valid)
    have u: "length (filter (\<lambda>l. \<not> ToBoolean (js_prop l ''seen'')) two_listings) = 1"
      by (simp add: two_listings_def sample_listing_props)
    have len: "length two_listings = 2" by (simp add: two_listings_def)
    show ?thesis
      using fetchListings_success [OF token_present h n]
      by (simp add: v u len)
  qed
  have r: "fst (http (backend []) (scrape_request (backend []) (Some ''tok'')) two_listings)
     = Resolved (JObj [(''total_listings'', JNum 2), (''unseen_listings'', JNum 1)])"
    by (simp add: backend_scrape)
  show ?thesis
    by (simp add: scrape_then_fetch [OF r] backend_scrape on off)
qed

end
